theory Spec2Isabelle
  imports Main
begin

section \<open>Runtime primitives used by the product controller\<close>

text \<open>
  The controller of \<^verbatim>\<open>src/controllers/product.controller.ts\<close> calls a handful of
  JavaScript string methods, two regular expressions, the base64 decoder of \<^verbatim>\<open>Buffer.from\<close>
  and \<^verbatim>\<open>path.resolve\<close>. Each is written out here as an executable function.
\<close>

subsection \<open>Strings\<close>

definition startsWith :: "string \<Rightarrow> string \<Rightarrow> bool" where
  \<comment> \<open>\<^verbatim>\<open>s.startsWith(p)\<close>\<close>
  "startsWith s p = (take (length p) s = p)"

fun split_on :: "char \<Rightarrow> string \<Rightarrow> string list" where
  \<comment> \<open>\<^verbatim>\<open>s.split(c)\<close> for a one-character separator: \<^verbatim>\<open>''.split(c)\<close> is \<^verbatim>\<open>['']\<close>\<close>
  "split_on c [] = [[]]"
| "split_on c (x # xs) =
     (if x = c then [] # split_on c xs
      else (case split_on c xs of
              [] \<Rightarrow> [[x]]
            | y # ys \<Rightarrow> (x # y) # ys))"

definition first_elem :: "string list \<Rightarrow> string" where
  \<comment> \<open>\<^verbatim>\<open>xs[0]\<close> on the result of \<^verbatim>\<open>split\<close>, which always has an element\<close>
  "first_elem xs = (case xs of [] \<Rightarrow> [] | x # _ \<Rightarrow> x)"

fun pop_elem :: "string list \<Rightarrow> string option" where
  \<comment> \<open>\<^verbatim>\<open>xs.pop()\<close>: the last element, \<^verbatim>\<open>undefined\<close> on the empty array\<close>
  "pop_elem [] = None"
| "pop_elem [x] = Some x"
| "pop_elem (x # y # ys) = pop_elem (y # ys)"

definition is_data_uri :: "string option \<Rightarrow> bool" where
  \<comment> \<open>the controller's test \<^verbatim>\<open>product.previewImage?.startsWith('data:image')\<close>\<close>
  "is_data_uri v = (case v of None \<Rightarrow> False | Some s \<Rightarrow> startsWith s ''data:image'')"

definition truthy :: "string option \<Rightarrow> bool" where
  \<comment> \<open>JavaScript truthiness of an optional string: \<^verbatim>\<open>undefined\<close> and \<^verbatim>\<open>''\<close> are falsy\<close>
  "truthy v = (case v of None \<Rightarrow> False | Some s \<Rightarrow> s \<noteq> [])"

subsection \<open>The two regular expressions\<close>

fun match_ext :: "string \<Rightarrow> string option" where
  \<comment> \<open>\<^verbatim>\<open>s.match(/jpeg|png|jpg/)?.[0]\<close>: leftmost position, alternatives in order\<close>
  "match_ext [] = None"
| "match_ext (c # cs) =
     (if startsWith (c # cs) ''jpeg'' then Some ''jpeg''
      else if startsWith (c # cs) ''png'' then Some ''png''
      else if startsWith (c # cs) ''jpg'' then Some ''jpg''
      else match_ext cs)"

definition is_word_char :: "char \<Rightarrow> bool" where
  \<comment> \<open>the class \<^verbatim>\<open>\w\<close>: ASCII letters, digits and the underscore\<close>
  "is_word_char c =
     (let n = (of_char c :: nat) in
        (65 \<le> n \<and> n \<le> 90) \<or> (97 \<le> n \<and> n \<le> 122) \<or> (48 \<le> n \<and> n \<le> 57) \<or> n = 95)"

definition strip_data_prefix :: "string \<Rightarrow> string" where
  \<comment> \<open>\<^verbatim>\<open>s.replace(/^data:image\/\w+;base64,/, '')\<close>. The character after the run of
      \<^verbatim>\<open>\w\<close> must be \<^verbatim>\<open>;\<close>, which is not a word character, so only the longest run can match.\<close>
  "strip_data_prefix s =
     (if startsWith s ''data:image/'' then
        (let r = drop 11 s;
             t = dropWhile is_word_char r
         in if takeWhile is_word_char r \<noteq> [] \<and> startsWith t '';base64,''
            then drop 8 t else s)
      else s)"

subsection \<open>Base64 decoding of \<^verbatim>\<open>Buffer.from(data, 'base64')\<close>\<close>

type_synonym bytes = "nat list"

definition unbase64 :: "char \<Rightarrow> nat option" where
  \<comment> \<open>value of a character of the standard or the URL-safe alphabet\<close>
  "unbase64 c =
     (let n = (of_char c :: nat) in
        if 65 \<le> n \<and> n \<le> 90 then Some (n - 65)
        else if 97 \<le> n \<and> n \<le> 122 then Some (n - 71)
        else if 48 \<le> n \<and> n \<le> 57 then Some (n + 4)
        else if n = 43 \<or> n = 45 then Some 62
        else if n = 47 \<or> n = 95 then Some 63
        else None)"

fun sextets :: "string \<Rightarrow> nat list" where
  \<comment> \<open>the decoder skips every character outside the alphabet and stops at the first \<^verbatim>\<open>=\<close>\<close>
  "sextets [] = []"
| "sextets (c # cs) =
     (if c = CHR ''='' then []
      else (case unbase64 c of
              None \<Rightarrow> sextets cs
            | Some v \<Rightarrow> v # sextets cs))"

fun decode_groups :: "nat list \<Rightarrow> bytes" where
  \<comment> \<open>four sextets give three bytes; a final group of three gives two bytes, of two gives one,
      and a single dangling sextet gives none\<close>
  "decode_groups (a # b # c # d # r) =
     (a * 4 + b div 16) # ((b mod 16) * 16 + c div 4) # ((c mod 4) * 64 + d) # decode_groups r"
| "decode_groups [a, b, c] = [a * 4 + b div 16, (b mod 16) * 16 + c div 4]"
| "decode_groups [a, b] = [a * 4 + b div 16]"
| "decode_groups [a] = []"
| "decode_groups [] = []"

definition base64_decode :: "string \<Rightarrow> bytes" where
  \<comment> \<open>the decoder has no failure result: every string yields a buffer, possibly empty\<close>
  "base64_decode s = decode_groups (sextets s)"

subsection \<open>\<^verbatim>\<open>path.resolve\<close> on a POSIX system\<close>

fun join_slash :: "string list \<Rightarrow> string" where
  "join_slash [] = []"
| "join_slash [s] = s"
| "join_slash (s # t # ts) = s @ ''/'' @ join_slash (t # ts)"

fun concat_args :: "string list \<Rightarrow> string \<times> bool" where
  \<comment> \<open>the arguments are taken from the right, each put in front of what has been collected,
      until one of them is absolute; empty arguments are skipped\<close>
  "concat_args [] = ([], False)"
| "concat_args (a # as) =
     (case concat_args as of
        (r, absolute) \<Rightarrow>
          if absolute \<or> a = [] then (r, absolute)
          else (a @ ''/'' @ r, startsWith a ''/''))"

fun normalize_segments :: "string list \<Rightarrow> string list \<Rightarrow> string list" where
  \<comment> \<open>empty and \<^verbatim>\<open>.\<close> segments are dropped, \<^verbatim>\<open>..\<close> removes the segment before it and is
      dropped at the root\<close>
  "normalize_segments acc [] = acc"
| "normalize_segments acc (s # ss) =
     (if s = [] \<or> s = ''.'' then normalize_segments acc ss
      else if s = ''..'' then normalize_segments (butlast acc) ss
      else normalize_segments (acc @ [s]) ss)"

definition path_resolve :: "string \<Rightarrow> string list \<Rightarrow> string" where
  \<comment> \<open>\<open>cwd\<close> is \<^verbatim>\<open>process.cwd()\<close>, an absolute path, used when no argument is absolute\<close>
  "path_resolve cwd args =
     (case concat_args args of
        (r, absolute) \<Rightarrow>
          ''/'' @ join_slash
            (normalize_segments [] (split_on CHR ''/'' (if absolute then r else cwd @ ''/'' @ r))))"

section \<open>Data model\<close>

text \<open>
  \<^verbatim>\<open>Product\<close> is declared in \<^verbatim>\<open>../models\<close>; the controller reads and writes its
  \<^verbatim>\<open>id\<close> and \<^verbatim>\<open>previewImage\<close> properties only. The remaining properties are the opaque
  field \<open>rest\<close>.
\<close>

record 'a product =
  product_id :: string
  previewImage :: "string option"
  rest :: 'a

text \<open>The two properties of the injected request that the controller reads.\<close>

record request =
  protocol :: string
  host :: string

text \<open>
  \<open>NotFound\<close> is the Record Store's error for an absent identifier.
  \<open>ERR_INVALID_ARG_VALUE\<close> is what \<^verbatim>\<open>fs.writeFile\<close> and \<^verbatim>\<open>fs.unlink\<close> throw, before they
  start anything, when the path they are given contains a NUL character.
\<close>

datatype error = NotFound | ERR_INVALID_ARG_VALUE

definition valid_path :: "string \<Rightarrow> bool" where
  \<comment> \<open>the check of the path argument that every \<^verbatim>\<open>fs\<close> function makes synchronously\<close>
  "valid_path file = (CHR 0x00 \<notin> set file)"

text \<open>
  A file operation that \<^verbatim>\<open>fs\<close> has accepted and whose callback has not run yet. The
  callback is a closure; its captured variables are the constructor's arguments.
\<close>

datatype 'a io =
    WriteFile string bytes "'a product" string request
  | Unlink string "'a product"

text \<open>
  The observable calls, in order. \<open>FsWriteFile\<close> and \<open>FsUnlink\<close> record that the function
  was called with these arguments, \<open>FsWriteFileDone\<close> and \<open>FsUnlinkDone\<close> that its callback
  was invoked with this error (\<open>None\<close> for success).
\<close>

datatype 'a event =
    FsWriteFile string bytes
  | FsWriteFileDone string "string option"
  | FsUnlink string
  | FsUnlinkDone string "string option"
  | ConsoleWarn string string
  | RepoCreate "'a product"
  | RepoUpdateAll "'a product"
  | RepoUpdateById string "'a product"
  | RepoFindById string
  | RepoReplaceById string "'a product"
  | RepoDeleteById string
  | UnhandledRejection error

record 'a world =
  store :: "string \<rightharpoonup> 'a product"
  pending :: "'a io list"
  trace :: "'a event list"

definition log_event :: "'a event \<Rightarrow> 'a world \<Rightarrow> 'a world" where
  "log_event e w = w\<lparr>trace := trace w @ [e]\<rparr>"

subsection \<open>The Record Store\<close>

definition repo_create :: "string \<Rightarrow> 'a product \<Rightarrow> 'a world \<Rightarrow> 'a product \<times> 'a world" where
  \<comment> \<open>Modelled from the spec: \<^verbatim>\<open>ProductRepository\<close> is not among the sources. \<^verbatim>\<open>Create(record) -> record\<close>,
      the identifier being assigned by the store; \<open>new_id\<close> is the identifier it picks.\<close>
  "repo_create new_id p w =
     (let p' = p\<lparr>product_id := new_id\<rparr>
      in (p', (log_event (RepoCreate p) w)\<lparr>store := (store w)(new_id \<mapsto> p')\<rparr>))"

definition patched :: "('a \<Rightarrow> 'a \<Rightarrow> 'a) \<Rightarrow> 'a product \<Rightarrow> 'a product \<Rightarrow> 'a product" where
  \<comment> \<open>Modelled from the spec: a patch overwrites the properties it carries. An absent
      \<^verbatim>\<open>previewImage\<close> leaves the stored one, the identifier stays, and \<open>merge\<close> stands for what
      the store does with the other properties of the patch and of the stored record.\<close>
  "patched merge patch s =
     s\<lparr>previewImage := (case previewImage patch of None \<Rightarrow> previewImage s | Some v \<Rightarrow> Some v),
       rest := merge (rest patch) (rest s)\<rparr>"

definition repo_updateAll ::
  "('a \<Rightarrow> 'a \<Rightarrow> 'a) \<Rightarrow> 'a product \<Rightarrow> ('a product \<Rightarrow> bool) \<Rightarrow> 'a world \<Rightarrow> nat \<times> 'a world" where
  \<comment> \<open>Modelled from the spec: \<^verbatim>\<open>UpdateAll(patch, filter?) -> count updated\<close>; \<open>wh\<close> is the filter,
      constantly true when none is given.\<close>
  "repo_updateAll merge patch wh w =
     (card {k. \<exists>s. store w k = Some s \<and> wh s},
      (log_event (RepoUpdateAll patch) w)
        \<lparr>store := (\<lambda>k. map_option (\<lambda>s. if wh s then patched merge patch s else s) (store w k))\<rparr>)"

definition repo_updateById ::
  "('a \<Rightarrow> 'a \<Rightarrow> 'a) \<Rightarrow> string \<Rightarrow> 'a product \<Rightarrow> 'a world \<Rightarrow> (error + unit) \<times> 'a world" where
  \<comment> \<open>Modelled from the spec: \<^verbatim>\<open>UpdateById(id, patch) -> void\<close>, fails with NotFound if absent.\<close>
  "repo_updateById merge i patch w =
     (case store w i of
        None \<Rightarrow> (Inl NotFound, log_event (RepoUpdateById i patch) w)
      | Some s \<Rightarrow>
          (Inr (), (log_event (RepoUpdateById i patch) w)\<lparr>store := (store w)(i \<mapsto> patched merge patch s)\<rparr>))"

definition repo_findById :: "string \<Rightarrow> 'a world \<Rightarrow> (error + 'a product) \<times> 'a world" where
  \<comment> \<open>Modelled from the spec: \<^verbatim>\<open>FindById(id) -> record\<close>, fails with NotFound if absent.\<close>
  "repo_findById i w =
     (case store w i of
        None \<Rightarrow> (Inl NotFound, log_event (RepoFindById i) w)
      | Some p \<Rightarrow> (Inr p, log_event (RepoFindById i) w))"

definition repo_replaceById ::
  "string \<Rightarrow> 'a product \<Rightarrow> 'a world \<Rightarrow> (error + unit) \<times> 'a world" where
  \<comment> \<open>Modelled from the spec: \<^verbatim>\<open>ReplaceById(id, record) -> void\<close>, fails with NotFound if absent.\<close>
  "repo_replaceById i p w =
     (case store w i of
        None \<Rightarrow> (Inl NotFound, log_event (RepoReplaceById i p) w)
      | Some _ \<Rightarrow> (Inr (), (log_event (RepoReplaceById i p) w)\<lparr>store := (store w)(i \<mapsto> p)\<rparr>))"

definition repo_deleteById :: "string \<Rightarrow> 'a world \<Rightarrow> (error + unit) \<times> 'a world" where
  \<comment> \<open>Modelled from the spec: \<^verbatim>\<open>DeleteById(id) -> void\<close>, fails with NotFound if absent.\<close>
  "repo_deleteById i w =
     (case store w i of
        None \<Rightarrow> (Inl NotFound, log_event (RepoDeleteById i) w)
      | Some _ \<Rightarrow> (Inr (), (log_event (RepoDeleteById i) w)\<lparr>store := (store w)(i := None)\<rparr>))"

section \<open>The controller\<close>

definition IMAGE_FOLDER :: string where "IMAGE_FOLDER = ''images''"
definition PRODUCT_IMAGE_FOLDER :: string where "PRODUCT_IMAGE_FOLDER = ''product''"
definition PRODUCT_IMAGE_PREVIEW_PREFIX :: string where "PRODUCT_IMAGE_PREVIEW_PREFIX = ''preview_''"

definition imageStorageDirectory :: string where
  \<comment> \<open>\<^verbatim>\<open>path.join(IMAGE_FOLDER, PRODUCT_IMAGE_FOLDER)\<close> of two plain names, POSIX separator\<close>
  "imageStorageDirectory = IMAGE_FOLDER @ ''/'' @ PRODUCT_IMAGE_FOLDER"

definition create :: "string \<Rightarrow> 'a product \<Rightarrow> 'a world \<Rightarrow> 'a product \<times> 'a world" where
  "create new_id p w = repo_create new_id p w"

definition updateAll ::
  "('a \<Rightarrow> 'a \<Rightarrow> 'a) \<Rightarrow> 'a product \<Rightarrow> ('a product \<Rightarrow> bool) \<Rightarrow> 'a world \<Rightarrow> nat \<times> 'a world" where
  "updateAll merge p wh w = repo_updateAll merge p wh w"

definition updateById ::
  "('a \<Rightarrow> 'a \<Rightarrow> 'a) \<Rightarrow> string \<Rightarrow> 'a product \<Rightarrow> 'a world \<Rightarrow> (error + unit) \<times> 'a world" where
  "updateById merge i p w = repo_updateById merge i p w"

definition image_ext :: "string \<Rightarrow> string" where
  \<comment> \<open>\<^verbatim>\<open>img.split(';')[0].match(/jpeg|png|jpg/)?.[0] ?? ''\<close>\<close>
  "image_ext img =
     (case match_ext (first_elem (split_on CHR '';'' img)) of
        None \<Rightarrow> []
      | Some e \<Rightarrow> e)"

definition storage_file_name :: "'a product \<Rightarrow> string \<Rightarrow> string" where
  \<comment> \<open>the template \<^verbatim>\<open>`${PRODUCT_IMAGE_PREVIEW_PREFIX}${product.id}.${ext}`\<close>\<close>
  "storage_file_name p ext = PRODUCT_IMAGE_PREVIEW_PREFIX @ product_id p @ ''.'' @ ext"

definition image_url :: "request \<Rightarrow> string \<Rightarrow> string" where
  \<comment> \<open>\<^verbatim>\<open>`${this.req.protocol}://${this.req.headers.host}/product-images/${storageFileName}`\<close>\<close>
  "image_url req name = protocol req @ ''://'' @ host req @ ''/product-images/'' @ name"

definition handleRawImageProductReplacement ::
  "request \<Rightarrow> 'a product \<Rightarrow> 'a world \<Rightarrow> (error + unit) \<times> 'a world" where
  \<comment> \<open>\<^verbatim>\<open>fs.writeFile\<close> throws when the path is not valid, and the throw leaves the function as
      its error. Otherwise the function returns as soon as \<^verbatim>\<open>fs.writeFile\<close> has been called;
      the callback is left pending.\<close>
  "handleRawImageProductReplacement req p w =
     (case previewImage p of
        None \<Rightarrow> repo_replaceById (product_id p) p w
      | Some img \<Rightarrow>
          if img = [] then repo_replaceById (product_id p) p w
          else
            (let ext = image_ext img;
                 data = strip_data_prefix img;
                 buf = base64_decode data;
                 storageFileName = storage_file_name p ext;
                 file = imageStorageDirectory @ ''/'' @ storageFileName
             in if \<not> valid_path file
                then (Inl ERR_INVALID_ARG_VALUE, log_event (FsWriteFile file buf) w)
                else (Inr (), (log_event (FsWriteFile file buf) w)
                                \<lparr>pending := pending w @ [WriteFile file buf p storageFileName req]\<rparr>)))"

definition replaceById ::
  "request \<Rightarrow> string \<Rightarrow> 'a product \<Rightarrow> 'a world \<Rightarrow> (error + unit) \<times> 'a world" where
  "replaceById req i p w =
     (if is_data_uri (previewImage p) then handleRawImageProductReplacement req p w
      else repo_replaceById i p w)"

definition deleteProductPreviewImage :: "'a product \<Rightarrow> 'a world \<Rightarrow> (error + unit) \<times> 'a world" where
  \<comment> \<open>\<^verbatim>\<open>fs.unlink\<close> throws when the path is not valid; otherwise the callback is left pending\<close>
  "deleteProductPreviewImage p w =
     (case previewImage p of
        None \<Rightarrow> (Inr (), w)
      | Some img \<Rightarrow>
          (case pop_elem (split_on CHR ''/'' img) of
             None \<Rightarrow> (Inr (), w)
           | Some previewFileName \<Rightarrow>
               if previewFileName = [] then (Inr (), w)
               else (let file = imageStorageDirectory @ ''/'' @ previewFileName
                     in if \<not> valid_path file
                        then (Inl ERR_INVALID_ARG_VALUE, log_event (FsUnlink file) w)
                        else (Inr (), (log_event (FsUnlink file) w)
                                        \<lparr>pending := pending w @ [Unlink file p]\<rparr>))))"

definition deleteById :: "string \<Rightarrow> 'a world \<Rightarrow> (error + unit) \<times> 'a world" where
  \<comment> \<open>an error of \<^verbatim>\<open>findById\<close> or of \<^verbatim>\<open>deleteProductPreviewImage\<close> ends the function\<close>
  "deleteById i w =
     (case repo_findById i w of
        (Inl e, w1) \<Rightarrow> (Inl e, w1)
      | (Inr p, w1) \<Rightarrow>
          if truthy (previewImage p) then
            (case deleteProductPreviewImage p w1 of
               (Inl e, w2) \<Rightarrow> (Inl e, w2)
             | (Inr u, w2) \<Rightarrow> repo_deleteById i w2)
          else repo_deleteById i w1)"

subsection \<open>Completion of a pending file operation\<close>

fun complete :: "string option \<Rightarrow> 'a io \<Rightarrow> 'a world \<Rightarrow> 'a world" where
  \<comment> \<open>\<open>err\<close> is the callback's argument: \<open>None\<close> when the operation succeeded. A rejection of
      the promise inside the \<^verbatim>\<open>writeFile\<close> callback has no handler.\<close>
  "complete err (WriteFile file buf p storageFileName req) w =
     (let w1 = log_event (FsWriteFileDone file err) w;
          w2 = (case err of
                  None \<Rightarrow> w1
                | Some e \<Rightarrow>
                    log_event (ConsoleWarn (''Error writing preview image for product '' @ product_id p) e) w1);
          p' = (case err of
                  None \<Rightarrow> p\<lparr>previewImage := Some (image_url req storageFileName)\<rparr>
                | Some e \<Rightarrow> p)
      in (case repo_replaceById (product_id p') p' w2 of
            (Inl e, w3) \<Rightarrow> log_event (UnhandledRejection e) w3
          | (Inr u, w3) \<Rightarrow> w3))"
| "complete err (Unlink file p) w =
     (let w1 = log_event (FsUnlinkDone file err) w
      in (case err of
            None \<Rightarrow> w1
          | Some e \<Rightarrow>
              log_event (ConsoleWarn (''Error deleting preview image for product '' @ product_id p) e) w1))"

definition run_io :: "nat \<Rightarrow> string option \<Rightarrow> 'a world \<Rightarrow> 'a world" where
  \<comment> \<open>the \<open>k\<close>-th pending operation finishes with outcome \<open>err\<close> and its callback runs\<close>
  "run_io k err w =
     (if k < length (pending w)
      then complete err (pending w ! k) (w\<lparr>pending := take k (pending w) @ drop (Suc k) (pending w)\<rparr>)
      else w)"

subsection \<open>Serving an image\<close>

definition sendFile :: "string \<Rightarrow> string \<Rightarrow> string" where
  \<comment> \<open>the path that the function hands to \<^verbatim>\<open>res.sendFile\<close>; it does so for every file name.
      What the framework answers for a path is not part of the controller.\<close>
  "sendFile cwd fileName = path_resolve cwd [imageStorageDirectory, fileName]"

definition image_directory :: "string \<Rightarrow> string" where
  \<comment> \<open>the absolute path of the image directory\<close>
  "image_directory cwd = path_resolve cwd [imageStorageDirectory]"

definition inside_image_directory :: "string \<Rightarrow> string \<Rightarrow> bool" where
  "inside_image_directory cwd file = startsWith file (image_directory cwd @ ''/'')"

subsection \<open>Interleavings of requests and file completions\<close>

datatype 'a op =
    Create string "'a product"
  | UpdateAll "'a product" "'a product \<Rightarrow> bool"
  | UpdateById string "'a product"
  | Replace request string "'a product"
  | Delete string
  | IoDone nat "string option"

fun exec :: "('a \<Rightarrow> 'a \<Rightarrow> 'a) \<Rightarrow> 'a op \<Rightarrow> 'a world \<Rightarrow> 'a world" where
  \<comment> \<open>a request handler runs until it returns; \<open>IoDone k err\<close> is the completion of the
      \<open>k\<close>-th pending file operation, at any later moment\<close>
  "exec merge (Create new_id p) w = snd (create new_id p w)"
| "exec merge (UpdateAll p wh) w = snd (updateAll merge p wh w)"
| "exec merge (UpdateById i p) w = snd (updateById merge i p w)"
| "exec merge (Replace req i p) w = snd (replaceById req i p w)"
| "exec merge (Delete i) w = snd (deleteById i w)"
| "exec merge (IoDone k err) w = run_io k err w"

definition persisted_ok :: "'a world \<Rightarrow> bool" where
  \<comment> \<open>no stored record holds a data-URI in \<^verbatim>\<open>previewImage\<close>\<close>
  "persisted_ok w = (\<forall>i p. store w i = Some p \<longrightarrow> \<not> is_data_uri (previewImage p))"

fun scheme_ok :: "'a io \<Rightarrow> bool" where
  \<comment> \<open>a pending write whose request scheme does not itself start with \<^verbatim>\<open>data:image\<close>\<close>
  "scheme_ok (WriteFile file buf p storageFileName req) = (\<not> startsWith (protocol req) ''data:image'')"
| "scheme_ok (Unlink file p) = True"

fun admitted :: "'a op \<Rightarrow> 'a world \<Rightarrow> bool" where
  \<comment> \<open>the steps through which no data-URI reaches the store: a create or a patch that carries
      none, a data-URI replace whose request scheme is not one, and a file write that does not
      complete with an error\<close>
  "admitted (Create new_id p) w = (\<not> is_data_uri (previewImage p))"
| "admitted (UpdateAll p wh) w = (\<not> is_data_uri (previewImage p))"
| "admitted (UpdateById i p) w = (\<not> is_data_uri (previewImage p))"
| "admitted (Replace req i p) w =
     (is_data_uri (previewImage p) \<longrightarrow> \<not> startsWith (protocol req) ''data:image'')"
| "admitted (Delete i) w = True"
| "admitted (IoDone k err) w =
     (if k < length (pending w)
      then (case pending w ! k of
              WriteFile file buf p storageFileName req \<Rightarrow> err = None
            | Unlink file p \<Rightarrow> True)
      else True)"

fun admitted_run :: "('a \<Rightarrow> 'a \<Rightarrow> 'a) \<Rightarrow> 'a op list \<Rightarrow> 'a world \<Rightarrow> bool" where
  "admitted_run merge [] w = True"
| "admitted_run merge (x # xs) w = (admitted x w \<and> admitted_run merge xs (exec merge x w))"

definition empty_world :: "'a world" where
  "empty_world = \<lparr>store = Map.empty, pending = [], trace = []\<rparr>"

subsection \<open>Vocabulary of the statements\<close>

definition last_path_segment :: "string \<Rightarrow> string" where
  \<comment> \<open>the text after the last slash of a string, the whole string when it has no slash\<close>
  "last_path_segment s = rev (takeWhile (\<lambda>c. c \<noteq> CHR ''/'') (rev s))"

section \<open>Basic facts about the store and the callbacks\<close>

lemma data_uri_nonempty: "startsWith img ''data:image'' \<Longrightarrow> img \<noteq> []"
  by (auto simp: startsWith_def)

lemma match_ext_cases:
  "match_ext s = None \<or> match_ext s = Some ''jpeg'' \<or> match_ext s = Some ''png'' \<or> match_ext s = Some ''jpg''"
  by (induction s) auto

lemma image_ext_no_nul: "CHR 0x00 \<notin> set (image_ext img)"
  using match_ext_cases[of "first_elem (split_on CHR '';'' img)"]
  by (auto simp: image_ext_def)

lemma valid_write_path:
  "valid_path (imageStorageDirectory @ ''/'' @ storage_file_name p (image_ext img))
     = (CHR 0x00 \<notin> set (product_id p))"
  using image_ext_no_nul[of img]
  by (simp add: valid_path_def imageStorageDirectory_def IMAGE_FOLDER_def PRODUCT_IMAGE_FOLDER_def
        storage_file_name_def PRODUCT_IMAGE_PREVIEW_PREFIX_def)

lemma replaceById_data_uri:
  assumes "previewImage p = Some img" and "startsWith img ''data:image''"
      and "CHR 0x00 \<notin> set (product_id p)"
  shows "replaceById req i p w =
    (Inr (), (log_event (FsWriteFile (imageStorageDirectory @ ''/'' @ storage_file_name p (image_ext img))
                 (base64_decode (strip_data_prefix img))) w)
       \<lparr>pending := pending w @
          [WriteFile (imageStorageDirectory @ ''/'' @ storage_file_name p (image_ext img))
             (base64_decode (strip_data_prefix img)) p (storage_file_name p (image_ext img)) req]\<rparr>)"
  using assms data_uri_nonempty[OF assms(2)] valid_write_path[of p img]
  by (simp add: replaceById_def is_data_uri_def handleRawImageProductReplacement_def Let_def)

lemma replaceById_data_uri_rejected:
  assumes "previewImage p = Some img" and "startsWith img ''data:image''"
      and "CHR 0x00 \<in> set (product_id p)"
  shows "replaceById req i p w =
    (Inl ERR_INVALID_ARG_VALUE,
     log_event (FsWriteFile (imageStorageDirectory @ ''/'' @ storage_file_name p (image_ext img))
                 (base64_decode (strip_data_prefix img))) w)"
  using assms data_uri_nonempty[OF assms(2)] valid_write_path[of p img]
  by (simp add: replaceById_def is_data_uri_def handleRawImageProductReplacement_def Let_def)

lemma run_io_last:
  "pending w1 = ps @ [x] \<Longrightarrow> run_io (length ps) err w1 = complete err x (w1\<lparr>pending := ps\<rparr>)"
  by (simp add: run_io_def nth_append)

lemma trace_repo_replaceById:
  "trace (snd (repo_replaceById i p w)) = trace w @ [RepoReplaceById i p]"
  by (simp add: repo_replaceById_def log_event_def split: option.splits)

lemma pending_repo_replaceById:
  "pending (snd (repo_replaceById i p w)) = pending w"
  by (simp add: repo_replaceById_def log_event_def split: option.splits)

lemma store_repo_replaceById:
  "store (snd (repo_replaceById i p w)) = (if store w i = None then store w else (store w)(i \<mapsto> p))"
  by (simp add: repo_replaceById_def log_event_def split: option.splits)

lemma trace_complete_write:
  "trace (complete err (WriteFile file buf p name req) w) =
     trace w @ [FsWriteFileDone file err]
       @ (case err of None \<Rightarrow> []
          | Some e \<Rightarrow> [ConsoleWarn (''Error writing preview image for product '' @ product_id p) e])
       @ [RepoReplaceById (product_id p)
            (case err of None \<Rightarrow> p\<lparr>previewImage := Some (image_url req name)\<rparr> | Some e \<Rightarrow> p)]
       @ (if store w (product_id p) = None then [UnhandledRejection NotFound] else [])"
  by (cases err; cases "store w (product_id p)")
     (simp_all add: repo_replaceById_def log_event_def Let_def)

lemma store_complete_write:
  "store (complete err (WriteFile file buf p name req) w) =
     (if store w (product_id p) = None then store w
      else (store w)(product_id p \<mapsto>
             (case err of None \<Rightarrow> p\<lparr>previewImage := Some (image_url req name)\<rparr> | Some e \<Rightarrow> p)))"
  by (cases err; cases "store w (product_id p)")
     (simp_all add: repo_replaceById_def log_event_def Let_def)

lemma store_complete_unlink: "store (complete err (Unlink f p) w) = store w"
  by (cases err) (simp_all add: log_event_def)

lemma pending_complete: "pending (complete err x w) = pending w"
  by (cases x; cases err)
     (simp_all add: repo_replaceById_def log_event_def Let_def split: option.splits)

subsection \<open>A data-URI replace followed by the completion of its write\<close>

lemma replace_then_write_done:
  assumes "previewImage p = Some img" and "startsWith img ''data:image''"
      and "CHR 0x00 \<notin> set (product_id p)"
  shows "trace (run_io (length (pending w)) err (snd (replaceById req i p w))) =
     trace w @
       [FsWriteFile (imageStorageDirectory @ ''/'' @ storage_file_name p (image_ext img))
          (base64_decode (strip_data_prefix img)),
        FsWriteFileDone (imageStorageDirectory @ ''/'' @ storage_file_name p (image_ext img)) err]
       @ (case err of None \<Rightarrow> []
          | Some e \<Rightarrow> [ConsoleWarn (''Error writing preview image for product '' @ product_id p) e])
       @ [RepoReplaceById (product_id p)
            (case err of
               None \<Rightarrow> p\<lparr>previewImage := Some (image_url req (storage_file_name p (image_ext img)))\<rparr>
             | Some e \<Rightarrow> p)]
       @ (if store w (product_id p) = None then [UnhandledRejection NotFound] else [])"
proof -
  let ?name = "storage_file_name p (image_ext img)"
  let ?file = "imageStorageDirectory @ ''/'' @ ?name"
  let ?buf = "base64_decode (strip_data_prefix img)"
  let ?w1 = "snd (replaceById req i p w)"
  have w1: "?w1 = (log_event (FsWriteFile ?file ?buf) w)
                    \<lparr>pending := pending w @ [WriteFile ?file ?buf p ?name req]\<rparr>"
    by (simp add: replaceById_data_uri[OF assms])
  have pend: "pending ?w1 = pending w @ [WriteFile ?file ?buf p ?name req]"
    by (simp add: w1)
  have run: "run_io (length (pending w)) err ?w1 =
               complete err (WriteFile ?file ?buf p ?name req) (?w1\<lparr>pending := pending w\<rparr>)"
    by (rule run_io_last[OF pend])
  have tr: "trace (?w1\<lparr>pending := pending w\<rparr>) = trace w @ [FsWriteFile ?file ?buf]"
    by (simp add: w1 log_event_def)
  have st: "store (?w1\<lparr>pending := pending w\<rparr>) = store w"
    by (simp add: w1 log_event_def)
  show ?thesis
    unfolding run trace_complete_write tr st by simp
qed

lemma replace_then_write_done_store:
  assumes "previewImage p = Some img" and "startsWith img ''data:image''"
      and "CHR 0x00 \<notin> set (product_id p)"
  shows "store (run_io (length (pending w)) err (snd (replaceById req i p w))) =
     (if store w (product_id p) = None then store w
      else (store w)(product_id p \<mapsto>
             (case err of
                None \<Rightarrow> p\<lparr>previewImage := Some (image_url req (storage_file_name p (image_ext img)))\<rparr>
              | Some e \<Rightarrow> p)))"
proof -
  let ?name = "storage_file_name p (image_ext img)"
  let ?file = "imageStorageDirectory @ ''/'' @ ?name"
  let ?buf = "base64_decode (strip_data_prefix img)"
  let ?w1 = "snd (replaceById req i p w)"
  have w1: "?w1 = (log_event (FsWriteFile ?file ?buf) w)
                    \<lparr>pending := pending w @ [WriteFile ?file ?buf p ?name req]\<rparr>"
    by (simp add: replaceById_data_uri[OF assms])
  have pend: "pending ?w1 = pending w @ [WriteFile ?file ?buf p ?name req]"
    by (simp add: w1)
  have run: "run_io (length (pending w)) err ?w1 =
               complete err (WriteFile ?file ?buf p ?name req) (?w1\<lparr>pending := pending w\<rparr>)"
    by (rule run_io_last[OF pend])
  have st: "store (?w1\<lparr>pending := pending w\<rparr>) = store w"
    by (simp add: w1 log_event_def)
  show ?thesis
    unfolding run store_complete_write st by simp
qed

section \<open>Replace without an embedded image\<close>

text \<open>
  C6: a replace call whose \<^verbatim>\<open>previewImage\<close> does not start with the data-URI image prefix
  (absent and empty values included) hands exactly the record it was given to the Record
  Store's replace-by-id, under the identifier of the call, and starts no file operation:
  the only new event is the store call and the list of pending file operations is unchanged.
\<close>

theorem C6_plain_replace_is_delegated:
  assumes "\<not> is_data_uri (previewImage p)"
  shows "replaceById req i p w = repo_replaceById i p w
       \<and> trace (snd (replaceById req i p w)) = trace w @ [RepoReplaceById i p]
       \<and> pending (snd (replaceById req i p w)) = pending w"
  using assms
  by (simp add: replaceById_def trace_repo_replaceById pending_repo_replaceById)

theorem C6_plain_replace_is_delegated_witness:
  "\<not> is_data_uri (previewImage \<lparr>product_id = ''7'', previewImage = Some ''http://h/product-images/preview_7.png'', rest = ''shoe''\<rparr>)
   \<and> \<not> is_data_uri (previewImage \<lparr>product_id = ''7'', previewImage = None, rest = ''shoe''\<rparr>)
   \<and> \<not> is_data_uri (previewImage \<lparr>product_id = ''7'', previewImage = Some [], rest = ''shoe''\<rparr>)
   \<and> trace (snd (replaceById \<lparr>protocol = ''http'', host = ''h''\<rparr> ''7''
          \<lparr>product_id = ''7'', previewImage = Some ''http://h/product-images/preview_7.png'', rest = ''shoe''\<rparr>
          \<lparr>store = Map.empty, pending = [], trace = []\<rparr>))
       = [RepoReplaceById ''7'' \<lparr>product_id = ''7'', previewImage = Some ''http://h/product-images/preview_7.png'', rest = ''shoe''\<rparr>]
   \<and> pending (snd (replaceById \<lparr>protocol = ''http'', host = ''h''\<rparr> ''7''
          \<lparr>product_id = ''7'', previewImage = Some ''http://h/product-images/preview_7.png'', rest = ''shoe''\<rparr>
          \<lparr>store = Map.empty, pending = [], trace = []\<rparr>)) = []"
proof -
  have h: "\<not> is_data_uri (previewImage \<lparr>product_id = ''7'', previewImage = Some ''http://h/product-images/preview_7.png'', rest = ''shoe''\<rparr>)"
    by (simp add: is_data_uri_def startsWith_def)
  have h2: "\<not> is_data_uri (previewImage \<lparr>product_id = ''7'', previewImage = None, rest = ''shoe''\<rparr>)"
    by (simp add: is_data_uri_def)
  have h3: "\<not> is_data_uri (previewImage \<lparr>product_id = ''7'', previewImage = Some [], rest = ''shoe''\<rparr>)"
    by (simp add: is_data_uri_def startsWith_def)
  show ?thesis
    using h h2 h3
      C6_plain_replace_is_delegated [OF h, of "\<lparr>protocol = ''http'', host = ''h''\<rparr>" "''7''"
        "\<lparr>store = Map.empty, pending = [], trace = []\<rparr>", THEN conjunct2]
    by simp
qed

section \<open>Replace with an embedded image\<close>




text \<open>
  C3: in the data-URI branch the handler itself only calls \<^verbatim>\<open>fs.writeFile\<close>: it adds that
  call to the trace and leaves the store as it is. When \<^verbatim>\<open>fs.writeFile\<close> refuses the path
  (a NUL character in the record's \<^verbatim>\<open>id\<close>) no callback is pending, so the call makes no
  store write at all. Otherwise the callback is pending, and the store's replace-by-id is
  called by the callback, that is after the write has finished, whatever its outcome: in
  the trace it comes after the completion event of the write of the same call, and only
  then does the store change.
\<close>

theorem C3_store_write_follows_file_write:
  assumes "previewImage p = Some img" and "startsWith img ''data:image''"
  shows "trace (snd (replaceById req i p w)) = trace w @ [FsWriteFile (imageStorageDirectory @ ''/'' @ storage_file_name p (image_ext img)) (base64_decode (strip_data_prefix img))]
       \<and> store (snd (replaceById req i p w)) = store w
       \<and> (if CHR 0x00 \<in> set (product_id p)
          then fst (replaceById req i p w) = Inl ERR_INVALID_ARG_VALUE
             \<and> pending (snd (replaceById req i p w)) = pending w
          else fst (replaceById req i p w) = Inr ()
             \<and> pending (snd (replaceById req i p w)) =
                 pending w @ [WriteFile (imageStorageDirectory @ ''/'' @ storage_file_name p (image_ext img)) (base64_decode (strip_data_prefix img)) p (storage_file_name p (image_ext img)) req]
             \<and> trace (run_io (length (pending w)) err (snd (replaceById req i p w))) =
                 trace (snd (replaceById req i p w))
                   @ [FsWriteFileDone (imageStorageDirectory @ ''/'' @ storage_file_name p (image_ext img)) err]
                   @ (case err of None \<Rightarrow> []
                      | Some e \<Rightarrow> [ConsoleWarn (''Error writing preview image for product '' @ product_id p) e])
                   @ [RepoReplaceById (product_id p)
                        (case err of
                           None \<Rightarrow> p\<lparr>previewImage := Some (image_url req (storage_file_name p (image_ext img)))\<rparr>
                         | Some e \<Rightarrow> p)]
                   @ (if store w (product_id p) = None then [UnhandledRejection NotFound] else [])
             \<and> store (run_io (length (pending w)) err (snd (replaceById req i p w))) =
                 (if store w (product_id p) = None then store w
                  else (store w)(product_id p \<mapsto>
                         (case err of
                            None \<Rightarrow> p\<lparr>previewImage := Some (image_url req (storage_file_name p (image_ext img)))\<rparr>
                          | Some e \<Rightarrow> p))))"
proof (cases "CHR 0x00 \<in> set (product_id p)")
  case True
  note r = replaceById_data_uri_rejected[OF assms True, of req i w]
  show ?thesis
    unfolding r using True by (simp add: log_event_def)
next
  case False
  note r = replaceById_data_uri[OF assms False, of req i w]
  have a: "trace (snd (replaceById req i p w)) = trace w @ [FsWriteFile (imageStorageDirectory @ ''/'' @ storage_file_name p (image_ext img)) (base64_decode (strip_data_prefix img))]"
    unfolding r by (simp add: log_event_def)
  have b: "store (snd (replaceById req i p w)) = store w"
    unfolding r by (simp add: log_event_def)
  have c: "fst (replaceById req i p w) = Inr ()"
    unfolding r by simp
  have d: "pending (snd (replaceById req i p w)) =
                 pending w @ [WriteFile (imageStorageDirectory @ ''/'' @ storage_file_name p (image_ext img)) (base64_decode (strip_data_prefix img)) p (storage_file_name p (image_ext img)) req]"
    unfolding r by simp
  have e: "trace (run_io (length (pending w)) err (snd (replaceById req i p w))) =
                 trace (snd (replaceById req i p w))
                   @ [FsWriteFileDone (imageStorageDirectory @ ''/'' @ storage_file_name p (image_ext img)) err]
                   @ (case err of None \<Rightarrow> []
                      | Some e \<Rightarrow> [ConsoleWarn (''Error writing preview image for product '' @ product_id p) e])
                   @ [RepoReplaceById (product_id p)
                        (case err of
                           None \<Rightarrow> p\<lparr>previewImage := Some (image_url req (storage_file_name p (image_ext img)))\<rparr>
                         | Some e \<Rightarrow> p)]
                   @ (if store w (product_id p) = None then [UnhandledRejection NotFound] else [])"
    unfolding replace_then_write_done[OF assms False] a by simp
  note f = replace_then_write_done_store[OF assms False, of w err req i]
  show ?thesis
    using False a b c d e f by simp
qed

theorem C3_store_write_follows_file_write_witness:
  "previewImage \<lparr>product_id = ''7'', previewImage = Some ''data:image/jpeg;base64,/9j/4AAQ'', rest = ''shoe''\<rparr>
     = Some ''data:image/jpeg;base64,/9j/4AAQ''
   \<and> startsWith ''data:image/jpeg;base64,/9j/4AAQ'' ''data:image''
   \<and> trace (snd (replaceById \<lparr>protocol = ''https'', host = ''shop.example''\<rparr> ''7''
          \<lparr>product_id = ''7'', previewImage = Some ''data:image/jpeg;base64,/9j/4AAQ'', rest = ''shoe''\<rparr>
          \<lparr>store = [''7'' \<mapsto> \<lparr>product_id = ''7'', previewImage = None, rest = ''boot''\<rparr>],
             pending = [], trace = []\<rparr>))
      = [FsWriteFile ''images/product/preview_7.jpeg'' [255, 216, 255, 224, 0, 16]]
   \<and> store (snd (replaceById \<lparr>protocol = ''https'', host = ''shop.example''\<rparr> ''7''
          \<lparr>product_id = ''7'', previewImage = Some ''data:image/jpeg;base64,/9j/4AAQ'', rest = ''shoe''\<rparr>
          \<lparr>store = [''7'' \<mapsto> \<lparr>product_id = ''7'', previewImage = None, rest = ''boot''\<rparr>],
             pending = [], trace = []\<rparr>)) ''7''
      = Some \<lparr>product_id = ''7'', previewImage = None, rest = ''boot''\<rparr>
   \<and> trace (run_io 0 None
        (snd (replaceById \<lparr>protocol = ''https'', host = ''shop.example''\<rparr> ''7''
          \<lparr>product_id = ''7'', previewImage = Some ''data:image/jpeg;base64,/9j/4AAQ'', rest = ''shoe''\<rparr>
          \<lparr>store = [''7'' \<mapsto> \<lparr>product_id = ''7'', previewImage = None, rest = ''boot''\<rparr>],
             pending = [], trace = []\<rparr>)))
      = [FsWriteFile ''images/product/preview_7.jpeg'' [255, 216, 255, 224, 0, 16],
         FsWriteFileDone ''images/product/preview_7.jpeg'' None,
         RepoReplaceById ''7''
           \<lparr>product_id = ''7'',
              previewImage = Some ''https://shop.example/product-images/preview_7.jpeg'',
              rest = ''shoe''\<rparr>]
   \<and> store (run_io 0 None
        (snd (replaceById \<lparr>protocol = ''https'', host = ''shop.example''\<rparr> ''7''
          \<lparr>product_id = ''7'', previewImage = Some ''data:image/jpeg;base64,/9j/4AAQ'', rest = ''shoe''\<rparr>
          \<lparr>store = [''7'' \<mapsto> \<lparr>product_id = ''7'', previewImage = None, rest = ''boot''\<rparr>],
             pending = [], trace = []\<rparr>))) ''7''
      = Some \<lparr>product_id = ''7'',
              previewImage = Some ''https://shop.example/product-images/preview_7.jpeg'',
              rest = ''shoe''\<rparr>"
proof -
  let ?p = "\<lparr>product_id = ''7'', previewImage = Some ''data:image/jpeg;base64,/9j/4AAQ'', rest = ''shoe''\<rparr>"
  let ?w = "\<lparr>store = [''7'' \<mapsto> \<lparr>product_id = ''7'', previewImage = None, rest = ''boot''\<rparr>],
             pending = [], trace = []\<rparr>"
  let ?req = "\<lparr>protocol = ''https'', host = ''shop.example''\<rparr>"
  have h1: "previewImage ?p = Some ''data:image/jpeg;base64,/9j/4AAQ''"
    by simp
  have h2: "startsWith ''data:image/jpeg;base64,/9j/4AAQ'' ''data:image''"
    by (simp add: startsWith_def)
  have nul: "CHR 0x00 \<notin> set (product_id ?p)"
    by simp
  have ext: "image_ext ''data:image/jpeg;base64,/9j/4AAQ'' = ''jpeg''"
    by (simp add: image_ext_def first_elem_def startsWith_def)
  have dat: "base64_decode (strip_data_prefix ''data:image/jpeg;base64,/9j/4AAQ'') = [255, 216, 255, 224, 0, 16]"
    by (simp add: strip_data_prefix_def startsWith_def is_word_char_def base64_decode_def unbase64_def)
  note t = C3_store_write_follows_file_write [OF h1 h2, of ?req "''7''" ?w None]
  note t3 = t[THEN conjunct2, THEN conjunct2, unfolded if_not_P[OF nul]]
  have a: "trace (snd (replaceById ?req ''7'' ?p ?w))
      = [FsWriteFile ''images/product/preview_7.jpeg'' [255, 216, 255, 224, 0, 16]]"
    using t[THEN conjunct1]
    by (simp add: ext dat storage_file_name_def imageStorageDirectory_def IMAGE_FOLDER_def
          PRODUCT_IMAGE_FOLDER_def PRODUCT_IMAGE_PREVIEW_PREFIX_def)
  have b: "store (snd (replaceById ?req ''7'' ?p ?w)) ''7''
      = Some \<lparr>product_id = ''7'', previewImage = None, rest = ''boot''\<rparr>"
    using t[THEN conjunct2, THEN conjunct1] by simp
  have c: "trace (run_io 0 None (snd (replaceById ?req ''7'' ?p ?w)))
      = [FsWriteFile ''images/product/preview_7.jpeg'' [255, 216, 255, 224, 0, 16],
         FsWriteFileDone ''images/product/preview_7.jpeg'' None,
         RepoReplaceById ''7''
           \<lparr>product_id = ''7'',
              previewImage = Some ''https://shop.example/product-images/preview_7.jpeg'',
              rest = ''shoe''\<rparr>]"
    using t3[THEN conjunct2, THEN conjunct2, THEN conjunct1] a
    by (simp add: ext dat storage_file_name_def imageStorageDirectory_def IMAGE_FOLDER_def
          PRODUCT_IMAGE_FOLDER_def PRODUCT_IMAGE_PREVIEW_PREFIX_def image_url_def)
  have d: "store (run_io 0 None (snd (replaceById ?req ''7'' ?p ?w))) ''7''
      = Some \<lparr>product_id = ''7'',
              previewImage = Some ''https://shop.example/product-images/preview_7.jpeg'',
              rest = ''shoe''\<rparr>"
    using t3[THEN conjunct2, THEN conjunct2, THEN conjunct2]
    by (simp add: ext storage_file_name_def PRODUCT_IMAGE_PREVIEW_PREFIX_def image_url_def)
  show ?thesis
    by (intro conjI h1 h2 a b c d)
qed

lemma split_on_nonempty: "split_on c s \<noteq> []"
  by (induction s) (auto split: list.splits)

lemma first_elem_split_on:
  "c \<notin> set a \<Longrightarrow> first_elem (split_on c (a @ c # b)) = a"
  by (induction a) (auto simp: first_elem_def split: list.splits)





subsection \<open>A well-formed PNG data-URI\<close>

lemma image_ext_png: "image_ext (''data:image/png;base64,'' @ payload) = ''png''"
proof -
  have "first_elem (split_on CHR '';'' (''data:image/png'' @ CHR '';'' # (''base64,'' @ payload)))
          = ''data:image/png''"
    by (rule first_elem_split_on) simp
  then have "first_elem (split_on CHR '';'' (''data:image/png;base64,'' @ payload)) = ''data:image/png''"
    by simp
  then show ?thesis
    by (simp add: image_ext_def startsWith_def)
qed

lemma strip_data_prefix_png: "strip_data_prefix (''data:image/png;base64,'' @ payload) = payload"
  by (simp add: strip_data_prefix_def startsWith_def is_word_char_def)

lemma replace_png_then_write_ok:
  assumes "previewImage p = Some (''data:image/png;base64,'' @ payload)"
      and "CHR 0x00 \<notin> set (product_id p)"
  shows "trace (run_io (length (pending w)) None (snd (replaceById req i p w))) =
     trace w @
       [FsWriteFile (''images/product/preview_'' @ product_id p @ ''.png'') (base64_decode payload),
        FsWriteFileDone (''images/product/preview_'' @ product_id p @ ''.png'') None,
        RepoReplaceById (product_id p)
          (p\<lparr>previewImage :=
               Some (protocol req @ ''://'' @ host req @ ''/product-images/preview_'' @ product_id p @ ''.png'')\<rparr>)]
       @ (if store w (product_id p) = None then [UnhandledRejection NotFound] else [])"
proof -
  have sw: "startsWith (''data:image/png;base64,'' @ payload) ''data:image''"
    by (simp add: startsWith_def)
  have name: "storage_file_name p ''png'' = ''preview_'' @ product_id p @ ''.png''"
    by (simp add: storage_file_name_def PRODUCT_IMAGE_PREVIEW_PREFIX_def)
  have dir: "imageStorageDirectory = ''images/product''"
    by (simp add: imageStorageDirectory_def IMAGE_FOLDER_def PRODUCT_IMAGE_FOLDER_def)
  show ?thesis
    unfolding replace_then_write_done[OF assms(1) sw assms(2)] image_ext_png strip_data_prefix_png name dir image_url_def
    by simp
qed

text \<open>
  C1: the data-URI branch never looks at the identifier of the call. A request
  \<^verbatim>\<open>PUT /products/1\<close> whose body carries the identifier \<^verbatim>\<open>2\<close> and a well-formed PNG
  data-URI writes \<^verbatim>\<open>preview_2.png\<close>, not \<^verbatim>\<open>preview_1.png\<close>, and replaces record \<^verbatim>\<open>2\<close>
  with a URL that ends in \<^verbatim>\<open>preview_2.png\<close>; record \<^verbatim>\<open>1\<close> is left as it was.
\<close>

theorem C1_data_uri_branch_ignores_call_id:
  "trace (run_io 0 None
      (snd (replaceById \<lparr>protocol = ''http'', host = ''h''\<rparr> ''1''
         \<lparr>product_id = ''2'', previewImage = Some ''data:image/png;base64,aGk='', rest = ''shoe''\<rparr>
         \<lparr>store = [''1'' \<mapsto> \<lparr>product_id = ''1'', previewImage = None, rest = ''boot''\<rparr>,
                    ''2'' \<mapsto> \<lparr>product_id = ''2'', previewImage = None, rest = ''clog''\<rparr>],
            pending = [], trace = []\<rparr>)))
     = [FsWriteFile ''images/product/preview_2.png'' [104, 105],
        FsWriteFileDone ''images/product/preview_2.png'' None,
        RepoReplaceById ''2''
          \<lparr>product_id = ''2'', previewImage = Some ''http://h/product-images/preview_2.png'', rest = ''shoe''\<rparr>]
   \<and> store (run_io 0 None
      (snd (replaceById \<lparr>protocol = ''http'', host = ''h''\<rparr> ''1''
         \<lparr>product_id = ''2'', previewImage = Some ''data:image/png;base64,aGk='', rest = ''shoe''\<rparr>
         \<lparr>store = [''1'' \<mapsto> \<lparr>product_id = ''1'', previewImage = None, rest = ''boot''\<rparr>,
                    ''2'' \<mapsto> \<lparr>product_id = ''2'', previewImage = None, rest = ''clog''\<rparr>],
            pending = [], trace = []\<rparr>))) ''1''
     = Some \<lparr>product_id = ''1'', previewImage = None, rest = ''boot''\<rparr>"
proof -
  have h1: "previewImage \<lparr>product_id = ''2'', previewImage = Some ''data:image/png;base64,aGk='', rest = ''shoe''\<rparr>
              = Some ''data:image/png;base64,aGk=''"
    by simp
  have h2: "startsWith ''data:image/png;base64,aGk='' ''data:image''"
    by (simp add: startsWith_def)
  have h3: "CHR 0x00 \<notin> set (product_id \<lparr>product_id = ''2'', previewImage = Some ''data:image/png;base64,aGk='', rest = ''shoe''\<rparr>)"
    by simp
  have ext: "image_ext ''data:image/png;base64,aGk='' = ''png''"
    by (simp add: image_ext_def first_elem_def startsWith_def)
  have dat: "base64_decode (strip_data_prefix ''data:image/png;base64,aGk='') = [104, 105]"
    by (simp add: strip_data_prefix_def startsWith_def is_word_char_def base64_decode_def unbase64_def)
  have a: "trace (run_io 0 None
      (snd (replaceById \<lparr>protocol = ''http'', host = ''h''\<rparr> ''1''
         \<lparr>product_id = ''2'', previewImage = Some ''data:image/png;base64,aGk='', rest = ''shoe''\<rparr>
         \<lparr>store = [''1'' \<mapsto> \<lparr>product_id = ''1'', previewImage = None, rest = ''boot''\<rparr>,
                    ''2'' \<mapsto> \<lparr>product_id = ''2'', previewImage = None, rest = ''clog''\<rparr>],
            pending = [], trace = []\<rparr>)))
     = [FsWriteFile ''images/product/preview_2.png'' [104, 105],
        FsWriteFileDone ''images/product/preview_2.png'' None,
        RepoReplaceById ''2''
          \<lparr>product_id = ''2'', previewImage = Some ''http://h/product-images/preview_2.png'', rest = ''shoe''\<rparr>]"
    using replace_then_write_done [OF h1 h2 h3, of
        "\<lparr>store = [''1'' \<mapsto> \<lparr>product_id = ''1'', previewImage = None, rest = ''boot''\<rparr>,
                    ''2'' \<mapsto> \<lparr>product_id = ''2'', previewImage = None, rest = ''clog''\<rparr>],
            pending = [], trace = []\<rparr>" None "\<lparr>protocol = ''http'', host = ''h''\<rparr>" "''1''"]
    by (simp add: ext dat storage_file_name_def imageStorageDirectory_def IMAGE_FOLDER_def
          PRODUCT_IMAGE_FOLDER_def PRODUCT_IMAGE_PREVIEW_PREFIX_def image_url_def)
  have b: "store (run_io 0 None
      (snd (replaceById \<lparr>protocol = ''http'', host = ''h''\<rparr> ''1''
         \<lparr>product_id = ''2'', previewImage = Some ''data:image/png;base64,aGk='', rest = ''shoe''\<rparr>
         \<lparr>store = [''1'' \<mapsto> \<lparr>product_id = ''1'', previewImage = None, rest = ''boot''\<rparr>,
                    ''2'' \<mapsto> \<lparr>product_id = ''2'', previewImage = None, rest = ''clog''\<rparr>],
            pending = [], trace = []\<rparr>))) ''1''
     = Some \<lparr>product_id = ''1'', previewImage = None, rest = ''boot''\<rparr>"
    using replace_then_write_done_store [OF h1 h2 h3, of
        "\<lparr>store = [''1'' \<mapsto> \<lparr>product_id = ''1'', previewImage = None, rest = ''boot''\<rparr>,
                    ''2'' \<mapsto> \<lparr>product_id = ''2'', previewImage = None, rest = ''clog''\<rparr>],
            pending = [], trace = []\<rparr>" None "\<lparr>protocol = ''http'', host = ''h''\<rparr>" "''1''"]
    by simp
  show ?thesis
    by (intro conjI a b)
qed

lemma match_ext_no_substring:
  assumes "\<forall>e \<in> {''jpeg'', ''png'', ''jpg''}. \<not> (\<exists>a b. s = a @ e @ b)"
  shows "match_ext s = None"
  using assms
proof (induction s)
  case Nil
  then show ?case by simp
next
  case (Cons c cs)
  have tl: "\<forall>e \<in> {''jpeg'', ''png'', ''jpg''}. \<not> (\<exists>a b. cs = a @ e @ b)"
  proof (intro ballI notI)
    fix e assume e: "e \<in> {''jpeg'', ''png'', ''jpg''}" and "\<exists>a b. cs = a @ e @ b"
    then obtain a b where "cs = a @ e @ b" by blast
    then have "c # cs = (c # a) @ e @ b" by simp
    with Cons.prems e show False by blast
  qed
  have hd: "\<not> startsWith (c # cs) e" if e: "e \<in> {''jpeg'', ''png'', ''jpg''}" for e
  proof
    assume "startsWith (c # cs) e"
    then have "c # cs = [] @ e @ drop (length e) (c # cs)"
      unfolding startsWith_def by (metis append_Nil append_take_drop_id)
    with Cons.prems e show False by blast
  qed
  show ?case
    using Cons.IH[OF tl] hd by simp
qed

lemma match_ext_data_image: "match_ext (''data:image/'' @ s) = match_ext s"
  by (simp add: startsWith_def)

text \<open>
  C8, as stated, fails in three ways. The regular expression is searched for anywhere in
  the text before the first \<^verbatim>\<open>;\<close>, so the subtype \<^verbatim>\<open>apng\<close>, which is none of \<^verbatim>\<open>jpeg\<close>,
  \<^verbatim>\<open>png\<close>, \<^verbatim>\<open>jpg\<close>, gives the extension \<^verbatim>\<open>png\<close>. The file name is built from the record's
  own \<^verbatim>\<open>id\<close>, so the call for \<^verbatim>\<open>1\<close> with a body for \<^verbatim>\<open>2\<close> computes \<^verbatim>\<open>preview_2.\<close>. And an
  \<^verbatim>\<open>id\<close> with a NUL character makes \<^verbatim>\<open>fs.writeFile\<close> refuse the path, which is an error.
\<close>

theorem C8_subtype_id_and_path_counterexample:
  "''apng'' \<noteq> ''jpeg'' \<and> ''apng'' \<noteq> ''png'' \<and> ''apng'' \<noteq> ''jpg''
   \<and> image_ext ''data:image/apng;base64,aGk='' = ''png''
   \<and> storage_file_name \<lparr>product_id = ''7'', previewImage = Some ''data:image/apng;base64,aGk='', rest = ''shoe''\<rparr>
        (image_ext ''data:image/apng;base64,aGk='') = ''preview_7.png''
   \<and> trace (snd (replaceById \<lparr>protocol = ''http'', host = ''h''\<rparr> ''1''
        \<lparr>product_id = ''2'', previewImage = Some ''data:image/gif;base64,aGk='', rest = ''shoe''\<rparr>
        \<lparr>store = Map.empty, pending = [], trace = []\<rparr>))
      = [FsWriteFile ''images/product/preview_2.'' [104, 105]]
   \<and> fst (replaceById \<lparr>protocol = ''http'', host = ''h''\<rparr> [CHR ''7'', CHR 0x00]
        \<lparr>product_id = [CHR ''7'', CHR 0x00], previewImage = Some ''data:image/gif;base64,aGk='', rest = ''shoe''\<rparr>
        \<lparr>store = Map.empty, pending = [], trace = []\<rparr>)
      = Inl ERR_INVALID_ARG_VALUE"
proof -
  have a1: "''apng'' \<noteq> ''jpeg''" by simp
  have a2: "''apng'' \<noteq> ''png''" by simp
  have a3: "''apng'' \<noteq> ''jpg''" by simp
  have a4: "image_ext ''data:image/apng;base64,aGk='' = ''png''"
    by (simp add: image_ext_def first_elem_def startsWith_def)
  have a5: "storage_file_name \<lparr>product_id = ''7'', previewImage = Some ''data:image/apng;base64,aGk='', rest = ''shoe''\<rparr>
        (image_ext ''data:image/apng;base64,aGk='') = ''preview_7.png''"
    by (simp add: a4 storage_file_name_def PRODUCT_IMAGE_PREVIEW_PREFIX_def)
  have sw: "startsWith ''data:image/gif;base64,aGk='' ''data:image''"
    by (simp add: startsWith_def)
  have ext: "image_ext ''data:image/gif;base64,aGk='' = []"
    by (simp add: image_ext_def first_elem_def startsWith_def)
  have dat: "base64_decode (strip_data_prefix ''data:image/gif;base64,aGk='') = [104, 105]"
    by (simp add: strip_data_prefix_def startsWith_def is_word_char_def base64_decode_def unbase64_def)
  have p2: "previewImage \<lparr>product_id = ''2'', previewImage = Some ''data:image/gif;base64,aGk='', rest = ''shoe''\<rparr>
              = Some ''data:image/gif;base64,aGk=''"
    by simp
  have n2: "CHR 0x00 \<notin> set (product_id \<lparr>product_id = ''2'', previewImage = Some ''data:image/gif;base64,aGk='', rest = ''shoe''\<rparr>)"
    by simp
  have b: "trace (snd (replaceById \<lparr>protocol = ''http'', host = ''h''\<rparr> ''1''
        \<lparr>product_id = ''2'', previewImage = Some ''data:image/gif;base64,aGk='', rest = ''shoe''\<rparr>
        \<lparr>store = Map.empty, pending = [], trace = []\<rparr>))
      = [FsWriteFile ''images/product/preview_2.'' [104, 105]]"
    unfolding replaceById_data_uri[OF p2 sw n2]
    by (simp add: ext dat log_event_def storage_file_name_def imageStorageDirectory_def IMAGE_FOLDER_def
          PRODUCT_IMAGE_FOLDER_def PRODUCT_IMAGE_PREVIEW_PREFIX_def)
  have p7: "previewImage \<lparr>product_id = [CHR ''7'', CHR 0x00], previewImage = Some ''data:image/gif;base64,aGk='', rest = ''shoe''\<rparr>
              = Some ''data:image/gif;base64,aGk=''"
    by simp
  have n7: "CHR 0x00 \<in> set (product_id \<lparr>product_id = [CHR ''7'', CHR 0x00], previewImage = Some ''data:image/gif;base64,aGk='', rest = ''shoe''\<rparr>)"
    by simp
  have c: "fst (replaceById \<lparr>protocol = ''http'', host = ''h''\<rparr> [CHR ''7'', CHR 0x00]
        \<lparr>product_id = [CHR ''7'', CHR 0x00], previewImage = Some ''data:image/gif;base64,aGk='', rest = ''shoe''\<rparr>
        \<lparr>store = Map.empty, pending = [], trace = []\<rparr>)
      = Inl ERR_INVALID_ARG_VALUE"
    unfolding replaceById_data_uri_rejected[OF p7 sw n7] by simp
  show ?thesis
    by (intro conjI a1 a2 a3 a4 a5 b c)
qed

text \<open>
  C8, amended: in the data-URI branch, when the record carries the \<^verbatim>\<open>id\<close> of the call, that
  \<^verbatim>\<open>id\<close> has no NUL character, and the declared subtype (the text between \<^verbatim>\<open>data:image/\<close>
  and the first \<^verbatim>\<open>;\<close>) contains none of \<^verbatim>\<open>jpeg\<close>, \<^verbatim>\<open>png\<close>, \<^verbatim>\<open>jpg\<close> as a substring, the
  extension is the empty string and the storage file name is \<^verbatim>\<open>preview_<id>.\<close> with a
  trailing dot; the handler returns without an error and the write is pending under that
  name.
\<close>

theorem C8_unsupported_subtype_gives_empty_extension:
  assumes "previewImage p = Some img"
      and "img = ''data:image/'' @ subtype @ '';'' @ params"
      and "CHR '';'' \<notin> set subtype"
      and "\<forall>e \<in> {''jpeg'', ''png'', ''jpg''}. \<not> (\<exists>a b. subtype = a @ e @ b)"
      and "product_id p = i"
      and "CHR 0x00 \<notin> set i"
  shows "image_ext img = []
       \<and> storage_file_name p (image_ext img) = ''preview_'' @ i @ ''.''
       \<and> replaceById req i p w =
           (Inr (), (log_event (FsWriteFile (''images/product/preview_'' @ i @ ''.'')
                        (base64_decode (strip_data_prefix img))) w)
              \<lparr>pending := pending w @
                 [WriteFile (''images/product/preview_'' @ i @ ''.'')
                    (base64_decode (strip_data_prefix img)) p (''preview_'' @ i @ ''.'') req]\<rparr>)"
proof -
  have "first_elem (split_on CHR '';'' ((''data:image/'' @ subtype) @ CHR '';'' # params))
          = ''data:image/'' @ subtype"
    by (rule first_elem_split_on) (use assms(3) in auto)
  then have fe: "first_elem (split_on CHR '';'' img) = ''data:image/'' @ subtype"
    by (simp add: assms(2))
  have "match_ext (''data:image/'' @ subtype) = None"
    unfolding match_ext_data_image by (rule match_ext_no_substring[OF assms(4)])
  then have ext: "image_ext img = []"
    by (simp add: image_ext_def fe)
  have name: "storage_file_name p (image_ext img) = ''preview_'' @ i @ ''.''"
    by (simp add: ext storage_file_name_def PRODUCT_IMAGE_PREVIEW_PREFIX_def assms(5))
  have sw: "startsWith img ''data:image''"
    by (simp add: assms(2) startsWith_def)
  have nul: "CHR 0x00 \<notin> set (product_id p)"
    using assms(5,6) by simp
  have fpath: "imageStorageDirectory @ ''/'' @ storage_file_name p (image_ext img)
               = ''images/product/preview_'' @ i @ ''.''"
    by (simp add: name imageStorageDirectory_def IMAGE_FOLDER_def PRODUCT_IMAGE_FOLDER_def)
  note eq = replaceById_data_uri[OF assms(1) sw nul, of req i w, unfolded fpath, unfolded name]
  show ?thesis
    by (intro conjI) (rule ext, rule name, rule eq)
qed

theorem C8_unsupported_subtype_gives_empty_extension_witness:
  "previewImage \<lparr>product_id = ''7'', previewImage = Some ''data:image/gif;base64,aGk='', rest = ''shoe''\<rparr>
     = Some ''data:image/gif;base64,aGk=''
   \<and> ''data:image/gif;base64,aGk='' = ''data:image/'' @ ''gif'' @ '';'' @ ''base64,aGk=''
   \<and> CHR '';'' \<notin> set ''gif''
   \<and> \<not> (\<exists>a b. ''gif'' = a @ ''jpeg'' @ b)
   \<and> \<not> (\<exists>a b. ''gif'' = a @ ''png'' @ b)
   \<and> \<not> (\<exists>a b. ''gif'' = a @ ''jpg'' @ b)
   \<and> product_id \<lparr>product_id = ''7'', previewImage = Some ''data:image/gif;base64,aGk='', rest = ''shoe''\<rparr> = ''7''
   \<and> CHR 0x00 \<notin> set ''7''
   \<and> image_ext ''data:image/gif;base64,aGk='' = []
   \<and> storage_file_name \<lparr>product_id = ''7'', previewImage = Some ''data:image/gif;base64,aGk='', rest = ''shoe''\<rparr>
        (image_ext ''data:image/gif;base64,aGk='') = ''preview_7.''
   \<and> replaceById \<lparr>protocol = ''http'', host = ''h''\<rparr> ''7''
        \<lparr>product_id = ''7'', previewImage = Some ''data:image/gif;base64,aGk='', rest = ''shoe''\<rparr>
        \<lparr>store = Map.empty, pending = [], trace = []\<rparr>
      = (Inr (),
         \<lparr>store = Map.empty,
          pending = [WriteFile ''images/product/preview_7.'' [104, 105]
                       \<lparr>product_id = ''7'', previewImage = Some ''data:image/gif;base64,aGk='', rest = ''shoe''\<rparr>
                       ''preview_7.'' \<lparr>protocol = ''http'', host = ''h''\<rparr>],
          trace = [FsWriteFile ''images/product/preview_7.'' [104, 105]]\<rparr>)"
proof -
  have h1: "previewImage \<lparr>product_id = ''7'', previewImage = Some ''data:image/gif;base64,aGk='', rest = ''shoe''\<rparr>
     = Some ''data:image/gif;base64,aGk=''"
    by simp
  have h2: "''data:image/gif;base64,aGk='' = ''data:image/'' @ ''gif'' @ '';'' @ ''base64,aGk=''"
    by simp
  have h3: "CHR '';'' \<notin> set ''gif''"
    by simp
  have h4: "\<forall>e \<in> {''jpeg'', ''png'', ''jpg''}. \<not> (\<exists>a b. ''gif'' = a @ e @ b)"
  proof (intro ballI notI)
    fix e :: string
    assume e: "e \<in> {''jpeg'', ''png'', ''jpg''}" and "\<exists>a b. ''gif'' = a @ e @ b"
    then obtain a b where "''gif'' = a @ e @ b" by blast
    then have "set e \<subseteq> set ''gif''"
      by (metis set_append Un_upper1 Un_upper2 subset_trans)
    with e show False by auto
  qed
  have h5: "product_id \<lparr>product_id = ''7'', previewImage = Some ''data:image/gif;base64,aGk='', rest = ''shoe''\<rparr> = ''7''"
    by simp
  have h6: "CHR 0x00 \<notin> set ''7''"
    by simp
  have dat: "base64_decode (strip_data_prefix ''data:image/gif;base64,aGk='') = [104, 105]"
    by (simp add: strip_data_prefix_def startsWith_def is_word_char_def base64_decode_def unbase64_def)
  note t = C8_unsupported_subtype_gives_empty_extension [OF h1 h2 h3 h4 h5 h6,
        of "\<lparr>protocol = ''http'', host = ''h''\<rparr>"
        "\<lparr>store = Map.empty, pending = [], trace = []\<rparr>"]
  have c1: "image_ext ''data:image/gif;base64,aGk='' = []"
    by (rule t[THEN conjunct1])
  have c2: "storage_file_name \<lparr>product_id = ''7'', previewImage = Some ''data:image/gif;base64,aGk='', rest = ''shoe''\<rparr>
        (image_ext ''data:image/gif;base64,aGk='') = ''preview_7.''"
    using t[THEN conjunct2, THEN conjunct1] by simp
  have c3: "replaceById \<lparr>protocol = ''http'', host = ''h''\<rparr> ''7''
        \<lparr>product_id = ''7'', previewImage = Some ''data:image/gif;base64,aGk='', rest = ''shoe''\<rparr>
        \<lparr>store = Map.empty, pending = [], trace = []\<rparr>
      = (Inr (),
         \<lparr>store = Map.empty,
          pending = [WriteFile ''images/product/preview_7.'' [104, 105]
                       \<lparr>product_id = ''7'', previewImage = Some ''data:image/gif;base64,aGk='', rest = ''shoe''\<rparr>
                       ''preview_7.'' \<lparr>protocol = ''http'', host = ''h''\<rparr>],
          trace = [FsWriteFile ''images/product/preview_7.'' [104, 105]]\<rparr>)"
    using t[THEN conjunct2, THEN conjunct2] by (simp add: dat log_event_def)
  have n1: "\<not> (\<exists>a b. ''gif'' = a @ ''jpeg'' @ b)"
    using h4 by blast
  have n2: "\<not> (\<exists>a b. ''gif'' = a @ ''png'' @ b)"
    using h4 by blast
  have n3: "\<not> (\<exists>a b. ''gif'' = a @ ''jpg'' @ b)"
    using h4 by blast
  show ?thesis
    by (intro conjI h1 h2 h3 n1 n2 n3 h5 h6 c1 c2 c3)
qed

lemma split_on_no_sep: "c \<notin> set s \<Longrightarrow> split_on c s = [s]"
  by (induction s) auto

lemma split_on_with_sep: "c \<in> set s \<Longrightarrow> \<exists>y z zs. split_on c s = y # z # zs"
proof (induction s)
  case Nil
  then show ?case by simp
next
  case (Cons x s)
  show ?case
  proof (cases "c \<in> set s")
    case True
    then obtain y z zs where "split_on c s = y # z # zs"
      using Cons.IH by blast
    then show ?thesis by simp
  next
    case False
    with Cons.prems have "x = c" by simp
    then show ?thesis
      using split_on_no_sep[OF False] by simp
  qed
qed

lemma last_path_segment_no_slash:
  "CHR ''/'' \<notin> set s \<Longrightarrow> last_path_segment s = s"
proof -
  assume "CHR ''/'' \<notin> set s"
  then have "\<forall>c \<in> set (rev s). c \<noteq> CHR ''/''" by auto
  then have "takeWhile (\<lambda>c. c \<noteq> CHR ''/'') (rev s) = rev s"
    by (simp only: takeWhile_eq_all_conv)
  then show ?thesis
    unfolding last_path_segment_def by (simp only: rev_rev_ident)
qed

lemma last_path_segment_Cons:
  "last_path_segment (x # xs) =
     (if CHR ''/'' \<in> set xs then last_path_segment xs
      else if x = CHR ''/'' then xs else x # xs)"
proof (cases "CHR ''/'' \<in> set xs")
  case True
  then have "CHR ''/'' \<in> set (rev xs)" by simp
  then have "takeWhile (\<lambda>c. c \<noteq> CHR ''/'') (rev xs @ [x]) = takeWhile (\<lambda>c. c \<noteq> CHR ''/'') (rev xs)"
    by (intro takeWhile_append1[where x="CHR ''/''"]) simp_all
  then show ?thesis
    using True by (simp add: last_path_segment_def)
next
  case False
  then have "\<forall>c \<in> set (rev xs). c \<noteq> CHR ''/''" by auto
  then have "takeWhile (\<lambda>c. c \<noteq> CHR ''/'') (rev xs @ [x]) = rev xs @ takeWhile (\<lambda>c. c \<noteq> CHR ''/'') [x]"
    by (intro takeWhile_append2) simp
  then show ?thesis
    using False by (simp add: last_path_segment_def)
qed

lemma pop_elem_split_on: "pop_elem (split_on CHR ''/'' s) = Some (last_path_segment s)"
proof (induction s)
  case Nil
  then show ?case by (simp add: last_path_segment_def)
next
  case (Cons x s)
  show ?case
  proof (cases "CHR ''/'' \<in> set s")
    case True
    then obtain y z zs where yz: "split_on CHR ''/'' s = y # z # zs"
      using split_on_with_sep by blast
    then show ?thesis
      using Cons.IH True by (simp add: last_path_segment_Cons)
  next
    case False
    then show ?thesis
      using split_on_no_sep[OF False] by (simp add: last_path_segment_Cons)
  qed
qed

lemma last_path_segment_Nil: "last_path_segment [] = []"
  by (simp add: last_path_segment_def)

lemma valid_unlink_path:
  "valid_path (imageStorageDirectory @ CHR ''/'' # seg) = (CHR 0x00 \<notin> set seg)"
  by (simp add: valid_path_def imageStorageDirectory_def IMAGE_FOLDER_def PRODUCT_IMAGE_FOLDER_def)

lemma deleteProductPreviewImage_last_segment:
  "deleteProductPreviewImage p w =
     (case previewImage p of
        None \<Rightarrow> (Inr (), w)
      | Some img \<Rightarrow>
          if last_path_segment img = [] then (Inr (), w)
          else if CHR 0x00 \<in> set (last_path_segment img)
          then (Inl ERR_INVALID_ARG_VALUE,
                log_event (FsUnlink (imageStorageDirectory @ ''/'' @ last_path_segment img)) w)
          else (Inr (),
                (log_event (FsUnlink (imageStorageDirectory @ ''/'' @ last_path_segment img)) w)
                  \<lparr>pending := pending w @ [Unlink (imageStorageDirectory @ ''/'' @ last_path_segment img) p]\<rparr>))"
  by (simp add: deleteProductPreviewImage_def pop_elem_split_on valid_unlink_path Let_def
        split: option.splits)

lemma deleteById_existing:
  assumes "store w i = Some p"
  shows "deleteById i w =
     (case previewImage p of
        None \<Rightarrow>
          (Inr (), w\<lparr>trace := trace w @ [RepoFindById i, RepoDeleteById i], store := (store w)(i := None)\<rparr>)
      | Some img \<Rightarrow>
          if last_path_segment img = [] then
            (Inr (), w\<lparr>trace := trace w @ [RepoFindById i, RepoDeleteById i], store := (store w)(i := None)\<rparr>)
          else if CHR 0x00 \<in> set (last_path_segment img) then
            (Inl ERR_INVALID_ARG_VALUE,
             w\<lparr>trace := trace w @ [RepoFindById i,
                                    FsUnlink (imageStorageDirectory @ ''/'' @ last_path_segment img)]\<rparr>)
          else
            (Inr (), w\<lparr>trace := trace w @ [RepoFindById i,
                                           FsUnlink (imageStorageDirectory @ ''/'' @ last_path_segment img),
                                           RepoDeleteById i],
                       pending := pending w @ [Unlink (imageStorageDirectory @ ''/'' @ last_path_segment img) p],
                       store := (store w)(i := None)\<rparr>))"
proof (cases "previewImage p")
  case None
  then show ?thesis
    using assms
    by (simp add: deleteById_def repo_findById_def repo_deleteById_def truthy_def log_event_def)
next
  case (Some img)
  show ?thesis
  proof (cases "img = []")
    case True
    then show ?thesis
      using assms Some
      by (simp add: deleteById_def repo_findById_def repo_deleteById_def truthy_def log_event_def
            last_path_segment_Nil)
  next
    case False
    then show ?thesis
      using assms Some
      by (simp add: deleteById_def repo_findById_def repo_deleteById_def truthy_def log_event_def
            deleteProductPreviewImage_last_segment)
  qed
qed

section \<open>Deleting a record\<close>




lemma split_on_append: "split_on c (a @ c # b) = split_on c a @ split_on c b"
proof (induction a)
  case Nil
  then show ?case by simp
next
  case (Cons x a)
  obtain y ys where "split_on c a = y # ys"
    using split_on_nonempty[of c a] by (cases "split_on c a") auto
  then show ?case
    using Cons.IH by simp
qed

lemma normalize_segments_append:
  "normalize_segments acc (xs @ ys) = normalize_segments (normalize_segments acc xs) ys"
  by (induction xs arbitrary: acc) auto

lemma join_slash_snoc: "xs \<noteq> [] \<Longrightarrow> join_slash (xs @ [y]) = join_slash xs @ ''/'' @ y"
  by (induction xs rule: join_slash.induct) auto

lemma split_on_image_directory:
  "split_on CHR ''/'' imageStorageDirectory = [''images'', ''product'']"
  by (simp add: imageStorageDirectory_def IMAGE_FOLDER_def PRODUCT_IMAGE_FOLDER_def)

lemma path_resolve_image_directory:
  "path_resolve cwd [imageStorageDirectory] =
     ''/'' @ join_slash (normalize_segments [] (split_on CHR ''/'' cwd) @ [''images'', ''product''])"
proof -
  have nonabs: "\<not> startsWith imageStorageDirectory ''/''" "imageStorageDirectory \<noteq> []"
    by (simp_all add: imageStorageDirectory_def IMAGE_FOLDER_def PRODUCT_IMAGE_FOLDER_def startsWith_def)
  have ca: "concat_args [imageStorageDirectory] = (imageStorageDirectory @ ''/'', False)"
    using nonabs by simp
  have "split_on CHR ''/'' (cwd @ ''/'' @ imageStorageDirectory @ ''/'')
          = split_on CHR ''/'' cwd @ split_on CHR ''/'' (imageStorageDirectory @ CHR ''/'' # [])"
    using split_on_append[of "CHR ''/''" cwd "imageStorageDirectory @ ''/''"] by simp
  also have "\<dots> = split_on CHR ''/'' cwd @ [''images'', ''product''] @ [[]]"
    unfolding split_on_append split_on_image_directory by simp
  finally have sp: "split_on CHR ''/'' (cwd @ ''/'' @ imageStorageDirectory @ ''/'')
          = split_on CHR ''/'' cwd @ [''images'', ''product'', []]"
    by simp
  show ?thesis
    unfolding path_resolve_def ca
    using sp by (simp add: normalize_segments_append)
qed

lemma path_resolve_plain_name:
  assumes "CHR ''/'' \<notin> set f" and "f \<noteq> []" and "f \<noteq> ''.''" and "f \<noteq> ''..''"
  shows "path_resolve cwd [imageStorageDirectory, f] =
     ''/'' @ join_slash (normalize_segments [] (split_on CHR ''/'' cwd) @ [''images'', ''product'', f])"
proof -
  have nonabs: "\<not> startsWith imageStorageDirectory ''/''" "imageStorageDirectory \<noteq> []"
    by (simp_all add: imageStorageDirectory_def IMAGE_FOLDER_def PRODUCT_IMAGE_FOLDER_def startsWith_def)
  have fna: "\<not> startsWith f ''/''"
    using assms(1,2) by (cases f) (auto simp: startsWith_def)
  have ca: "concat_args [imageStorageDirectory, f] = (imageStorageDirectory @ ''/'' @ f @ ''/'', False)"
    using nonabs fna assms(2) by simp
  have "split_on CHR ''/'' (cwd @ ''/'' @ imageStorageDirectory @ ''/'' @ f @ ''/'')
          = split_on CHR ''/'' cwd @ split_on CHR ''/'' (imageStorageDirectory @ CHR ''/'' # (f @ CHR ''/'' # []))"
    using split_on_append[of "CHR ''/''" cwd "imageStorageDirectory @ ''/'' @ f @ ''/''"] by simp
  also have "\<dots> = split_on CHR ''/'' cwd @ [''images'', ''product''] @ [f] @ [[]]"
    unfolding split_on_append split_on_image_directory split_on_no_sep[OF assms(1)] by simp
  finally have sp: "split_on CHR ''/'' (cwd @ ''/'' @ imageStorageDirectory @ ''/'' @ f @ ''/'')
          = split_on CHR ''/'' cwd @ [''images'', ''product'', f, []]"
    by simp
  show ?thesis
    unfolding path_resolve_def ca
    using sp assms(2,3,4) by (simp add: normalize_segments_append)
qed

lemma path_resolve_plain_name_in_directory:
  assumes "CHR ''/'' \<notin> set f" and "f \<noteq> []" and "f \<noteq> ''.''" and "f \<noteq> ''..''"
  shows "path_resolve cwd [imageStorageDirectory, f] = image_directory cwd @ ''/'' @ f"
proof -
  let ?n = "normalize_segments [] (split_on CHR ''/'' cwd)"
  have "join_slash ((?n @ [''images'', ''product'']) @ [f])
          = join_slash (?n @ [''images'', ''product'']) @ ''/'' @ f"
    by (rule join_slash_snoc) simp
  then show ?thesis
    unfolding path_resolve_plain_name[OF assms] image_directory_def path_resolve_image_directory
    by simp
qed

section \<open>Serving an image\<close>

text \<open>
  C5, as stated, fails: \<^verbatim>\<open>sendFile\<close> checks nothing and rejects nothing. With the process
  running in \<^verbatim>\<open>/app\<close>, the file name \<^verbatim>\<open>../../secret.txt\<close> resolves to \<^verbatim>\<open>/app/secret.txt\<close>
  and the absolute file name \<^verbatim>\<open>/etc/passwd\<close> resolves to itself; both paths lie outside the
  image directory \<^verbatim>\<open>/app/images/product\<close>, and both are handed to \<^verbatim>\<open>res.sendFile\<close>.
\<close>

theorem C5_traversal_is_resolved_counterexample:
  "sendFile ''/app'' ''../../secret.txt'' = ''/app/secret.txt''
   \<and> \<not> inside_image_directory ''/app'' ''/app/secret.txt''
   \<and> sendFile ''/app'' ''/etc/passwd'' = ''/etc/passwd''
   \<and> \<not> inside_image_directory ''/app'' ''/etc/passwd''"
proof -
  have dir: "image_directory ''/app'' = ''/app/images/product''"
    by (simp add: image_directory_def path_resolve_def imageStorageDirectory_def IMAGE_FOLDER_def
          PRODUCT_IMAGE_FOLDER_def startsWith_def)
  have a: "sendFile ''/app'' ''../../secret.txt'' = ''/app/secret.txt''"
    by (simp add: sendFile_def path_resolve_def imageStorageDirectory_def IMAGE_FOLDER_def
          PRODUCT_IMAGE_FOLDER_def startsWith_def)
  have b: "\<not> inside_image_directory ''/app'' ''/app/secret.txt''"
    by (simp add: inside_image_directory_def dir startsWith_def)
  have c: "sendFile ''/app'' ''/etc/passwd'' = ''/etc/passwd''"
    by (simp add: sendFile_def path_resolve_def imageStorageDirectory_def IMAGE_FOLDER_def
          PRODUCT_IMAGE_FOLDER_def startsWith_def)
  have d: "\<not> inside_image_directory ''/app'' ''/etc/passwd''"
    by (simp add: inside_image_directory_def dir startsWith_def)
  show ?thesis
    by (intro conjI a b c d)
qed

text \<open>
  C5, amended: the controller's \<^verbatim>\<open>sendFile\<close> checks nothing about the file name: it
  resolves every name against the image directory and hands the resolved path to
  \<^verbatim>\<open>res.sendFile\<close>. For a file name that contains no slash and is neither empty nor \<^verbatim>\<open>.\<close>
  nor \<^verbatim>\<open>..\<close>, that path is the entry of that name directly inside the image directory.
\<close>

theorem C5_plain_name_resolves_inside_image_directory:
  assumes "CHR ''/'' \<notin> set fileName"
      and "fileName \<noteq> []" and "fileName \<noteq> ''.''" and "fileName \<noteq> ''..''"
  shows "sendFile cwd fileName = image_directory cwd @ ''/'' @ fileName
       \<and> inside_image_directory cwd (sendFile cwd fileName)"
proof -
  note r = path_resolve_plain_name_in_directory[OF assms, of cwd]
  have a: "sendFile cwd fileName = image_directory cwd @ ''/'' @ fileName"
    unfolding sendFile_def by (rule r)
  have b: "inside_image_directory cwd (sendFile cwd fileName)"
    unfolding a inside_image_directory_def startsWith_def by simp
  show ?thesis
    by (intro conjI a b)
qed

theorem C5_plain_name_resolves_inside_image_directory_witness:
  "CHR ''/'' \<notin> set ''preview_1.png''
   \<and> ''preview_1.png'' \<noteq> [] \<and> ''preview_1.png'' \<noteq> ''.'' \<and> ''preview_1.png'' \<noteq> ''..''
   \<and> sendFile ''/app'' ''preview_1.png'' = ''/app/images/product/preview_1.png''
   \<and> inside_image_directory ''/app'' (sendFile ''/app'' ''preview_1.png'')"
proof -
  have h1: "CHR ''/'' \<notin> set ''preview_1.png''" by simp
  have h2: "''preview_1.png'' \<noteq> []" by simp
  have h3: "''preview_1.png'' \<noteq> ''.''" by simp
  have h4: "''preview_1.png'' \<noteq> ''..''" by simp
  have dir: "image_directory ''/app'' = ''/app/images/product''"
    by (simp add: image_directory_def path_resolve_def imageStorageDirectory_def IMAGE_FOLDER_def
          PRODUCT_IMAGE_FOLDER_def startsWith_def)
  note t = C5_plain_name_resolves_inside_image_directory [OF h1 h2 h3 h4, of "''/app''"]
  have a: "sendFile ''/app'' ''preview_1.png'' = ''/app/images/product/preview_1.png''"
    using t[THEN conjunct1] by (simp add: dir)
  show ?thesis
    by (intro conjI h1 h2 h3 h4 a t[THEN conjunct2])
qed

lemma no_colon_slash: "\<not> (\<exists>a b. ''data:image'' = a @ CHR '':'' # CHR ''/'' # b)"
  by (auto simp: Cons_eq_append_conv)

lemma no_colon_end: "''data:image'' \<noteq> a @ [CHR '':'']"
  by (auto simp: Cons_eq_append_conv)

lemma scheme_prefix:
  assumes "startsWith (p @ CHR '':'' # CHR ''/'' # r) ''data:image''"
  shows "startsWith p ''data:image''"
proof (cases "10 \<le> length p")
  case True
  then show ?thesis
    using assms by (simp add: startsWith_def)
next
  case False
  have len: "length ''data:image'' = 10" by simp
  from assms have t: "take 10 (p @ CHR '':'' # CHR ''/'' # r) = ''data:image''"
    unfolding startsWith_def len .
  have "take 10 (p @ CHR '':'' # CHR ''/'' # r) = p @ take (10 - length p) (CHR '':'' # CHR ''/'' # r)"
    using False by simp
  with t have e: "''data:image'' = p @ take (10 - length p) (CHR '':'' # CHR ''/'' # r)"
    by simp
  obtain n where n: "10 - length p = Suc n"
    using False by (cases "10 - length p") auto
  show ?thesis
  proof (cases n)
    case 0
    then have "''data:image'' = p @ [CHR '':'']"
      using e n by simp
    then show ?thesis using no_colon_end by blast
  next
    case (Suc m)
    then have "''data:image'' = p @ CHR '':'' # CHR ''/'' # take m r"
      using e n by simp
    then show ?thesis using no_colon_slash by blast
  qed
qed

lemma url_is_no_data_uri:
  assumes "\<not> startsWith (protocol req) ''data:image''"
  shows "\<not> is_data_uri (Some (image_url req name))"
proof
  assume "is_data_uri (Some (image_url req name))"
  then have "startsWith (protocol req @ CHR '':'' # CHR ''/'' # (''/'' @ host req @ ''/product-images/'' @ name)) ''data:image''"
    by (simp add: is_data_uri_def image_url_def)
  then show False
    using scheme_prefix assms by blast
qed

lemma persisted_ok_update:
  "persisted_ok w \<Longrightarrow> \<not> is_data_uri (previewImage q) \<Longrightarrow> store w' = (store w)(i \<mapsto> q)
     \<Longrightarrow> persisted_ok w'"
  by (simp add: persisted_ok_def)

lemma persisted_ok_remove:
  "persisted_ok w \<Longrightarrow> store w' = (store w)(i := None) \<Longrightarrow> persisted_ok w'"
  by (simp add: persisted_ok_def)

lemma persisted_ok_same:
  "persisted_ok w \<Longrightarrow> store w' = store w \<Longrightarrow> persisted_ok w'"
  by (simp add: persisted_ok_def)

lemma patched_no_data_uri:
  "\<not> is_data_uri (previewImage patch) \<Longrightarrow> \<not> is_data_uri (previewImage s)
     \<Longrightarrow> \<not> is_data_uri (previewImage (patched merge patch s))"
  by (cases "previewImage patch") (simp_all add: patched_def)

lemma step_create:
  assumes "persisted_ok w" and "\<not> is_data_uri (previewImage p)"
  shows "persisted_ok (snd (create new_id p w))"
    and "pending (snd (create new_id p w)) = pending w"
proof -
  have "store (snd (create new_id p w)) = (store w)(new_id \<mapsto> p\<lparr>product_id := new_id\<rparr>)"
    by (simp add: create_def repo_create_def log_event_def Let_def)
  moreover have "\<not> is_data_uri (previewImage (p\<lparr>product_id := new_id\<rparr>))"
    using assms(2) by simp
  ultimately show "persisted_ok (snd (create new_id p w))"
    using assms(1) persisted_ok_update by blast
  show "pending (snd (create new_id p w)) = pending w"
    by (simp add: create_def repo_create_def log_event_def Let_def)
qed

lemma step_updateAll:
  assumes "persisted_ok w" and "\<not> is_data_uri (previewImage p)"
  shows "persisted_ok (snd (updateAll merge p wh w))"
    and "pending (snd (updateAll merge p wh w)) = pending w"
proof -
  have st: "store (snd (updateAll merge p wh w)) =
              (\<lambda>k. map_option (\<lambda>s. if wh s then patched merge p s else s) (store w k))"
    by (simp add: updateAll_def repo_updateAll_def log_event_def)
  show "persisted_ok (snd (updateAll merge p wh w))"
    unfolding persisted_ok_def st
  proof (intro allI impI)
    fix i q
    assume "map_option (\<lambda>s. if wh s then patched merge p s else s) (store w i) = Some q"
    then obtain s where s: "store w i = Some s" and q: "q = (if wh s then patched merge p s else s)"
      by auto
    have "\<not> is_data_uri (previewImage s)"
      using assms(1) s by (simp add: persisted_ok_def)
    then show "\<not> is_data_uri (previewImage q)"
      using q assms(2) patched_no_data_uri by auto
  qed
  show "pending (snd (updateAll merge p wh w)) = pending w"
    by (simp add: updateAll_def repo_updateAll_def log_event_def)
qed

lemma step_updateById:
  assumes "persisted_ok w" and "\<not> is_data_uri (previewImage p)"
  shows "persisted_ok (snd (updateById merge i p w))"
    and "pending (snd (updateById merge i p w)) = pending w"
proof -
  show "persisted_ok (snd (updateById merge i p w))"
  proof (cases "store w i")
    case None
    then have "store (snd (updateById merge i p w)) = store w"
      by (simp add: updateById_def repo_updateById_def log_event_def)
    then show ?thesis
      using assms(1) persisted_ok_same by blast
  next
    case (Some s)
    then have st: "store (snd (updateById merge i p w)) = (store w)(i \<mapsto> patched merge p s)"
      by (simp add: updateById_def repo_updateById_def log_event_def)
    have "\<not> is_data_uri (previewImage s)"
      using assms(1) Some by (simp add: persisted_ok_def)
    then have "\<not> is_data_uri (previewImage (patched merge p s))"
      using assms(2) patched_no_data_uri by blast
    then show ?thesis
      using st assms(1) persisted_ok_update by blast
  qed
  show "pending (snd (updateById merge i p w)) = pending w"
    by (simp add: updateById_def repo_updateById_def log_event_def split: option.splits)
qed

lemma step_replace:
  assumes "persisted_ok w" and "list_all scheme_ok (pending w)"
      and "is_data_uri (previewImage p) \<longrightarrow> \<not> startsWith (protocol req) ''data:image''"
  shows "persisted_ok (snd (replaceById req i p w))"
    and "list_all scheme_ok (pending (snd (replaceById req i p w)))"
proof -
  have "persisted_ok (snd (replaceById req i p w))
      \<and> list_all scheme_ok (pending (snd (replaceById req i p w)))"
  proof (cases "is_data_uri (previewImage p)")
    case False
    then have r: "replaceById req i p w = repo_replaceById i p w"
      by (simp add: replaceById_def)
    have pe: "pending (snd (replaceById req i p w)) = pending w"
      unfolding r by (rule pending_repo_replaceById)
    have "persisted_ok (snd (replaceById req i p w))"
    proof (cases "store w i")
      case None
      then have "store (snd (replaceById req i p w)) = store w"
        unfolding r by (simp add: store_repo_replaceById)
      then show ?thesis
        using assms(1) persisted_ok_same by blast
    next
      case (Some q)
      then have "store (snd (replaceById req i p w)) = (store w)(i \<mapsto> p)"
        unfolding r by (simp add: store_repo_replaceById)
      then show ?thesis
        using assms(1) False persisted_ok_update by blast
    qed
    then show ?thesis
      using pe assms(2) by simp
  next
    case True
    then obtain img where img: "previewImage p = Some img" and sw: "startsWith img ''data:image''"
      by (auto simp: is_data_uri_def split: option.splits)
    have sch: "\<not> startsWith (protocol req) ''data:image''"
      using assms(3) True by simp
    show ?thesis
    proof (cases "CHR 0x00 \<in> set (product_id p)")
      case True
      note r = replaceById_data_uri_rejected[OF img sw True, of req i w]
      have "store (snd (replaceById req i p w)) = store w"
        unfolding r by (simp add: log_event_def)
      moreover have "pending (snd (replaceById req i p w)) = pending w"
        unfolding r by (simp add: log_event_def)
      ultimately show ?thesis
        using assms(1,2) persisted_ok_same by auto
    next
      case False
      note r = replaceById_data_uri[OF img sw False, of req i w]
      have "store (snd (replaceById req i p w)) = store w"
        unfolding r by (simp add: log_event_def)
      moreover have "list_all scheme_ok (pending (snd (replaceById req i p w)))"
        unfolding r using assms(2) sch by simp
      ultimately show ?thesis
        using assms(1) persisted_ok_same by auto
    qed
  qed
  then show "persisted_ok (snd (replaceById req i p w))"
    and "list_all scheme_ok (pending (snd (replaceById req i p w)))"
    by simp_all
qed

lemma step_delete:
  assumes "persisted_ok w" and "list_all scheme_ok (pending w)"
  shows "persisted_ok (snd (deleteById i w))"
    and "list_all scheme_ok (pending (snd (deleteById i w)))"
proof -
  have "persisted_ok (snd (deleteById i w)) \<and> list_all scheme_ok (pending (snd (deleteById i w)))"
  proof (cases "store w i")
    case None
    then have d: "deleteById i w = (Inl NotFound, log_event (RepoFindById i) w)"
      by (simp add: deleteById_def repo_findById_def)
    have "store (snd (deleteById i w)) = store w" "pending (snd (deleteById i w)) = pending w"
      unfolding d by (simp_all add: log_event_def)
    then show ?thesis
      using assms persisted_ok_same by auto
  next
    case (Some p)
    note d = deleteById_existing[OF Some]
    have st: "store (snd (deleteById i w)) = store w \<or> store (snd (deleteById i w)) = (store w)(i := None)"
      unfolding d by (simp split: option.splits)
    have pe: "list_all scheme_ok (pending (snd (deleteById i w)))"
      unfolding d using assms(2) by (simp split: option.splits)
    show ?thesis
      using st pe assms(1) persisted_ok_same persisted_ok_remove by blast
  qed
  then show "persisted_ok (snd (deleteById i w))"
    and "list_all scheme_ok (pending (snd (deleteById i w)))"
    by simp_all
qed

lemma list_all_remove_nth:
  "list_all P xs \<Longrightarrow> list_all P (take k xs @ drop (Suc k) xs)"
  by (auto simp: list_all_iff dest: in_set_takeD in_set_dropD)

lemma step_io_done:
  assumes "persisted_ok w" and "list_all scheme_ok (pending w)" and "admitted (IoDone k err) w"
  shows "persisted_ok (run_io k err w)"
    and "list_all scheme_ok (pending (run_io k err w))"
proof -
  have "persisted_ok (run_io k err w) \<and> list_all scheme_ok (pending (run_io k err w))"
  proof (cases "k < length (pending w)")
    case False
    then show ?thesis
      using assms(1,2) by (simp add: run_io_def)
  next
    case True
    let ?w' = "w\<lparr>pending := take k (pending w) @ drop (Suc k) (pending w)\<rparr>"
    have run: "run_io k err w = complete err (pending w ! k) ?w'"
      using True by (simp add: run_io_def)
    have pe: "list_all scheme_ok (pending (run_io k err w))"
      unfolding run pending_complete using assms(2) list_all_remove_nth by simp
    have ok: "scheme_ok (pending w ! k)"
      using assms(2) True by (simp add: list_all_length)
    have "persisted_ok (run_io k err w)"
    proof (cases "pending w ! k")
      case (Unlink f p)
      have "store (run_io k err w) = store w"
        unfolding run Unlink store_complete_unlink by simp
      then show ?thesis
        using assms(1) persisted_ok_same by blast
    next
      case (WriteFile f buf p name req)
      have e: "err = None"
        using assms(3) True WriteFile by simp
      have sch: "\<not> startsWith (protocol req) ''data:image''"
        using ok WriteFile by simp
      let ?q = "p\<lparr>previewImage := Some (image_url req name)\<rparr>"
      have "store (complete err (WriteFile f buf p name req) ?w') =
                  (if store w (product_id p) = None then store w else (store w)(product_id p \<mapsto> ?q))"
        unfolding store_complete_write by (simp add: e)
      then have st: "store (run_io k err w) =
                  (if store w (product_id p) = None then store w else (store w)(product_id p \<mapsto> ?q))"
        using run WriteFile by simp
      have q: "\<not> is_data_uri (previewImage ?q)"
        using url_is_no_data_uri[OF sch] by simp
      show ?thesis
      proof (cases "store w (product_id p)")
        case None
        then show ?thesis
          using st assms(1) persisted_ok_same by simp
      next
        case (Some y)
        then have "store (run_io k err w) = (store w)(product_id p \<mapsto> ?q)"
          using st by simp
        then show ?thesis
          using assms(1) q persisted_ok_update by blast
      qed
    qed
    then show ?thesis
      using pe by simp
  qed
  then show "persisted_ok (run_io k err w)"
    and "list_all scheme_ok (pending (run_io k err w))"
    by simp_all
qed

lemma step_exec:
  assumes "persisted_ok w" and "list_all scheme_ok (pending w)" and "admitted x w"
  shows "persisted_ok (exec merge x w) \<and> list_all scheme_ok (pending (exec merge x w))"
proof (cases x)
  case (Create new_id p)
  then show ?thesis
    using assms step_create[of w p new_id] by simp
next
  case (UpdateAll p wh)
  then show ?thesis
    using assms step_updateAll[of w p merge wh] by simp
next
  case (UpdateById i p)
  then show ?thesis
    using assms step_updateById[of w p merge i] by simp
next
  case (Replace req i p)
  then show ?thesis
    using assms step_replace[of w p req i] by simp
next
  case (Delete i)
  then show ?thesis
    using assms step_delete[of w i] by simp
next
  case (IoDone k err)
  then show ?thesis
    using assms step_io_done[of w k err] by simp
qed

lemma fold_exec_ok:
  assumes "persisted_ok w" and "list_all scheme_ok (pending w)" and "admitted_run merge ops w"
  shows "persisted_ok (fold (exec merge) ops w)"
  using assms
proof (induction ops arbitrary: w)
  case Nil
  then show ?case by simp
next
  case (Cons x xs)
  have a: "admitted x w" and r: "admitted_run merge xs (exec merge x w)"
    using Cons.prems(3) by simp_all
  note s = step_exec[OF Cons.prems(1,2) a, of merge]
  show ?case
    using Cons.IH[OF s[THEN conjunct1] s[THEN conjunct2] r] by simp
qed

lemmas run_defs =
  create_def repo_create_def updateAll_def repo_updateAll_def updateById_def repo_updateById_def
  patched_def replaceById_def handleRawImageProductReplacement_def repo_replaceById_def
  deleteById_def deleteProductPreviewImage_def repo_findById_def repo_deleteById_def
  run_io_def log_event_def empty_world_def is_data_uri_def startsWith_def truthy_def
  image_ext_def first_elem_def strip_data_prefix_def is_word_char_def base64_decode_def unbase64_def
  storage_file_name_def imageStorageDirectory_def IMAGE_FOLDER_def PRODUCT_IMAGE_FOLDER_def
  PRODUCT_IMAGE_PREVIEW_PREFIX_def image_url_def valid_path_def Let_def

section \<open>What the store holds\<close>

text \<open>
  C4, as stated, fails: the controller converts a data-URI only in \<^verbatim>\<open>replaceById\<close>, and
  only when the file write succeeds. In each of the five runs below the store ends up
  holding a record whose \<^verbatim>\<open>previewImage\<close> starts with \<^verbatim>\<open>data:image\<close>: a create that carries
  a data-URI, a patch-by-id that carries one, a bulk patch that carries one, a replace whose
  file write fails, and a replace that arrives with the request scheme \<^verbatim>\<open>data:image\<close>, which
  makes the generated URL start with that prefix.
\<close>

theorem C4_store_can_hold_data_uri_counterexample:
  "\<not> persisted_ok
       (fold (exec (\<lambda>a b. a))
          [Create ''1'' \<lparr>product_id = [], previewImage = Some ''data:image/png;base64,aGk='', rest = ''shoe''\<rparr>]
          empty_world)
   \<and> \<not> persisted_ok
       (fold (exec (\<lambda>a b. a))
          [Create ''1'' \<lparr>product_id = [], previewImage = None, rest = ''shoe''\<rparr>,
           UpdateById ''1'' \<lparr>product_id = [], previewImage = Some ''data:image/png;base64,aGk='', rest = ''boot''\<rparr>]
          empty_world)
   \<and> \<not> persisted_ok
       (fold (exec (\<lambda>a b. a))
          [Create ''1'' \<lparr>product_id = [], previewImage = None, rest = ''shoe''\<rparr>,
           UpdateAll \<lparr>product_id = [], previewImage = Some ''data:image/png;base64,aGk='', rest = ''boot''\<rparr> (\<lambda>s. True)]
          empty_world)
   \<and> \<not> persisted_ok
       (fold (exec (\<lambda>a b. a))
          [Create ''1'' \<lparr>product_id = [], previewImage = None, rest = ''shoe''\<rparr>,
           Replace \<lparr>protocol = ''http'', host = ''h''\<rparr> ''1''
             \<lparr>product_id = ''1'', previewImage = Some ''data:image/png;base64,aGk='', rest = ''boot''\<rparr>,
           IoDone 0 (Some ''ENOSPC'')]
          empty_world)
   \<and> \<not> persisted_ok
       (fold (exec (\<lambda>a b. a))
          [Create ''1'' \<lparr>product_id = [], previewImage = None, rest = ''shoe''\<rparr>,
           Replace \<lparr>protocol = ''data:image'', host = ''h''\<rparr> ''1''
             \<lparr>product_id = ''1'', previewImage = Some ''data:image/png;base64,aGk='', rest = ''boot''\<rparr>,
           IoDone 0 None]
          empty_world)"
proof -
  have s1: "store (fold (exec (\<lambda>a b. a))
          [Create ''1'' \<lparr>product_id = [], previewImage = Some ''data:image/png;base64,aGk='', rest = ''shoe''\<rparr>]
          empty_world) ''1''
            = Some \<lparr>product_id = ''1'', previewImage = Some ''data:image/png;base64,aGk='', rest = ''shoe''\<rparr>"
    by (simp add: run_defs)
  have u1: "is_data_uri (previewImage \<lparr>product_id = ''1'', previewImage = Some ''data:image/png;base64,aGk='', rest = ''shoe''\<rparr>)"
    by (simp add: is_data_uri_def startsWith_def)
  have c1: "\<not> persisted_ok
       (fold (exec (\<lambda>a b. a))
          [Create ''1'' \<lparr>product_id = [], previewImage = Some ''data:image/png;base64,aGk='', rest = ''shoe''\<rparr>]
          empty_world)"
    using s1 u1 unfolding persisted_ok_def by blast
  have s2: "store (fold (exec (\<lambda>a b. a))
          [Create ''1'' \<lparr>product_id = [], previewImage = None, rest = ''shoe''\<rparr>,
           UpdateById ''1'' \<lparr>product_id = [], previewImage = Some ''data:image/png;base64,aGk='', rest = ''boot''\<rparr>]
          empty_world) ''1''
            = Some \<lparr>product_id = ''1'', previewImage = Some ''data:image/png;base64,aGk='', rest = ''boot''\<rparr>"
    by (simp add: run_defs)
  have u2: "is_data_uri (previewImage \<lparr>product_id = ''1'', previewImage = Some ''data:image/png;base64,aGk='', rest = ''boot''\<rparr>)"
    by (simp add: is_data_uri_def startsWith_def)
  have c2: "\<not> persisted_ok
       (fold (exec (\<lambda>a b. a))
          [Create ''1'' \<lparr>product_id = [], previewImage = None, rest = ''shoe''\<rparr>,
           UpdateById ''1'' \<lparr>product_id = [], previewImage = Some ''data:image/png;base64,aGk='', rest = ''boot''\<rparr>]
          empty_world)"
    using s2 u2 unfolding persisted_ok_def by blast
  have s3: "store (fold (exec (\<lambda>a b. a))
          [Create ''1'' \<lparr>product_id = [], previewImage = None, rest = ''shoe''\<rparr>,
           UpdateAll \<lparr>product_id = [], previewImage = Some ''data:image/png;base64,aGk='', rest = ''boot''\<rparr> (\<lambda>s. True)]
          empty_world) ''1''
            = Some \<lparr>product_id = ''1'', previewImage = Some ''data:image/png;base64,aGk='', rest = ''boot''\<rparr>"
    by (simp add: run_defs)
  have u3: "is_data_uri (previewImage \<lparr>product_id = ''1'', previewImage = Some ''data:image/png;base64,aGk='', rest = ''boot''\<rparr>)"
    by (simp add: is_data_uri_def startsWith_def)
  have c3: "\<not> persisted_ok
       (fold (exec (\<lambda>a b. a))
          [Create ''1'' \<lparr>product_id = [], previewImage = None, rest = ''shoe''\<rparr>,
           UpdateAll \<lparr>product_id = [], previewImage = Some ''data:image/png;base64,aGk='', rest = ''boot''\<rparr> (\<lambda>s. True)]
          empty_world)"
    using s3 u3 unfolding persisted_ok_def by blast
  have s4: "store (fold (exec (\<lambda>a b. a))
          [Create ''1'' \<lparr>product_id = [], previewImage = None, rest = ''shoe''\<rparr>,
           Replace \<lparr>protocol = ''http'', host = ''h''\<rparr> ''1''
             \<lparr>product_id = ''1'', previewImage = Some ''data:image/png;base64,aGk='', rest = ''boot''\<rparr>,
           IoDone 0 (Some ''ENOSPC'')]
          empty_world) ''1''
            = Some \<lparr>product_id = ''1'', previewImage = Some ''data:image/png;base64,aGk='', rest = ''boot''\<rparr>"
    by (simp add: run_defs)
  have u4: "is_data_uri (previewImage \<lparr>product_id = ''1'', previewImage = Some ''data:image/png;base64,aGk='', rest = ''boot''\<rparr>)"
    by (simp add: is_data_uri_def startsWith_def)
  have c4: "\<not> persisted_ok
       (fold (exec (\<lambda>a b. a))
          [Create ''1'' \<lparr>product_id = [], previewImage = None, rest = ''shoe''\<rparr>,
           Replace \<lparr>protocol = ''http'', host = ''h''\<rparr> ''1''
             \<lparr>product_id = ''1'', previewImage = Some ''data:image/png;base64,aGk='', rest = ''boot''\<rparr>,
           IoDone 0 (Some ''ENOSPC'')]
          empty_world)"
    using s4 u4 unfolding persisted_ok_def by blast
  have s5: "store (fold (exec (\<lambda>a b. a))
          [Create ''1'' \<lparr>product_id = [], previewImage = None, rest = ''shoe''\<rparr>,
           Replace \<lparr>protocol = ''data:image'', host = ''h''\<rparr> ''1''
             \<lparr>product_id = ''1'', previewImage = Some ''data:image/png;base64,aGk='', rest = ''boot''\<rparr>,
           IoDone 0 None]
          empty_world) ''1''
            = Some \<lparr>product_id = ''1'', previewImage = Some ''data:image://h/product-images/preview_1.png'', rest = ''boot''\<rparr>"
    by (simp add: run_defs)
  have u5: "is_data_uri (previewImage \<lparr>product_id = ''1'', previewImage = Some ''data:image://h/product-images/preview_1.png'', rest = ''boot''\<rparr>)"
    by (simp add: is_data_uri_def startsWith_def)
  have c5: "\<not> persisted_ok
       (fold (exec (\<lambda>a b. a))
          [Create ''1'' \<lparr>product_id = [], previewImage = None, rest = ''shoe''\<rparr>,
           Replace \<lparr>protocol = ''data:image'', host = ''h''\<rparr> ''1''
             \<lparr>product_id = ''1'', previewImage = Some ''data:image/png;base64,aGk='', rest = ''boot''\<rparr>,
           IoDone 0 None]
          empty_world)"
    using s5 u5 unfolding persisted_ok_def by blast
  show ?thesis
    by (intro conjI c1 c2 c3 c4 c5)
qed

text \<open>
  C4, amended: starting from a store without data-URIs, after any interleaving of create,
  bulk-patch, patch-by-id, replace and delete calls with the completions of the file
  operations they started, no stored record has a \<^verbatim>\<open>previewImage\<close> that starts with
  \<^verbatim>\<open>data:image\<close>, provided that no create and no patch carries a data-URI, that no file
  write completes with an error, and that no replace carrying a data-URI arrives with a
  request scheme that itself starts with \<^verbatim>\<open>data:image\<close> (nor is such a write pending at the
  start).
\<close>

theorem C4_store_holds_no_data_uri_after_admitted_steps:
  assumes "persisted_ok w" and "list_all scheme_ok (pending w)" and "admitted_run merge ops w"
  shows "persisted_ok (fold (exec merge) ops w)"
  by (rule fold_exec_ok[OF assms])

theorem C4_store_holds_no_data_uri_after_admitted_steps_witness:
  "persisted_ok (empty_world :: string world)
   \<and> list_all scheme_ok (pending (empty_world :: string world))
   \<and> admitted_run (\<lambda>a b. a)
          [Create ''1'' \<lparr>product_id = [], previewImage = None, rest = ''shoe''\<rparr>,
           Replace \<lparr>protocol = ''http'', host = ''h''\<rparr> ''1''
             \<lparr>product_id = ''1'', previewImage = Some ''data:image/png;base64,aGk='', rest = ''shoe''\<rparr>,
           Create ''2'' \<lparr>product_id = [], previewImage = Some ''http://h/product-images/old.png'', rest = ''boot''\<rparr>,
           UpdateById ''2'' \<lparr>product_id = [], previewImage = None, rest = ''clog''\<rparr>,
           Delete ''2'',
           IoDone 0 None,
           IoDone 0 (Some ''ENOENT'')]
          empty_world
   \<and> persisted_ok
        (fold (exec (\<lambda>a b. a))
          [Create ''1'' \<lparr>product_id = [], previewImage = None, rest = ''shoe''\<rparr>,
           Replace \<lparr>protocol = ''http'', host = ''h''\<rparr> ''1''
             \<lparr>product_id = ''1'', previewImage = Some ''data:image/png;base64,aGk='', rest = ''shoe''\<rparr>,
           Create ''2'' \<lparr>product_id = [], previewImage = Some ''http://h/product-images/old.png'', rest = ''boot''\<rparr>,
           UpdateById ''2'' \<lparr>product_id = [], previewImage = None, rest = ''clog''\<rparr>,
           Delete ''2'',
           IoDone 0 None,
           IoDone 0 (Some ''ENOENT'')]
          empty_world)
   \<and> store
        (fold (exec (\<lambda>a b. a))
          [Create ''1'' \<lparr>product_id = [], previewImage = None, rest = ''shoe''\<rparr>,
           Replace \<lparr>protocol = ''http'', host = ''h''\<rparr> ''1''
             \<lparr>product_id = ''1'', previewImage = Some ''data:image/png;base64,aGk='', rest = ''shoe''\<rparr>,
           Create ''2'' \<lparr>product_id = [], previewImage = Some ''http://h/product-images/old.png'', rest = ''boot''\<rparr>,
           UpdateById ''2'' \<lparr>product_id = [], previewImage = None, rest = ''clog''\<rparr>,
           Delete ''2'',
           IoDone 0 None,
           IoDone 0 (Some ''ENOENT'')]
          empty_world) ''1''
      = Some \<lparr>product_id = ''1'', previewImage = Some ''http://h/product-images/preview_1.png'', rest = ''shoe''\<rparr>"
proof -
  have h1: "persisted_ok (empty_world :: string world)"
    by (simp add: persisted_ok_def empty_world_def)
  have h2: "list_all scheme_ok (pending (empty_world :: string world))"
    by (simp add: empty_world_def)
  have h3: "admitted_run (\<lambda>a b. a)
          [Create ''1'' \<lparr>product_id = [], previewImage = None, rest = ''shoe''\<rparr>,
           Replace \<lparr>protocol = ''http'', host = ''h''\<rparr> ''1''
             \<lparr>product_id = ''1'', previewImage = Some ''data:image/png;base64,aGk='', rest = ''shoe''\<rparr>,
           Create ''2'' \<lparr>product_id = [], previewImage = Some ''http://h/product-images/old.png'', rest = ''boot''\<rparr>,
           UpdateById ''2'' \<lparr>product_id = [], previewImage = None, rest = ''clog''\<rparr>,
           Delete ''2'',
           IoDone 0 None,
           IoDone 0 (Some ''ENOENT'')]
          empty_world"
    by (simp add: run_defs)
  have s: "store
        (fold (exec (\<lambda>a b. a))
          [Create ''1'' \<lparr>product_id = [], previewImage = None, rest = ''shoe''\<rparr>,
           Replace \<lparr>protocol = ''http'', host = ''h''\<rparr> ''1''
             \<lparr>product_id = ''1'', previewImage = Some ''data:image/png;base64,aGk='', rest = ''shoe''\<rparr>,
           Create ''2'' \<lparr>product_id = [], previewImage = Some ''http://h/product-images/old.png'', rest = ''boot''\<rparr>,
           UpdateById ''2'' \<lparr>product_id = [], previewImage = None, rest = ''clog''\<rparr>,
           Delete ''2'',
           IoDone 0 None,
           IoDone 0 (Some ''ENOENT'')]
          empty_world) ''1''
      = Some \<lparr>product_id = ''1'', previewImage = Some ''http://h/product-images/preview_1.png'', rest = ''shoe''\<rparr>"
    by (simp add: run_defs)
  show ?thesis
    by (intro conjI h1 h2 h3 s C4_store_holds_no_data_uri_after_admitted_steps [OF h1 h2 h3])
qed

end
